theory Spec2Isabelle
  imports Complex_Main
begin

section \<open>Walker batches of ipie: reorthogonalisation\<close>

text \<open>
  This theory embeds \<^verbatim>\<open>src/ipie/walkers/uhf_walkers.py\<close>. Numbers are the exact
  complex numbers, not \<^verbatim>\<open>complex128\<close>: rounding, overflow, \<^verbatim>\<open>inf\<close> and \<^verbatim>\<open>nan\<close> are
  outside the model.
\<close>

subsection \<open>Exceptions\<close>

datatype error =
    AssertionError
  | IndexError
  | ValueError
  | ZeroDivisionError
  | KeyError
  | Exception string

subsection \<open>The array backend\<close>

text \<open>
  A two-dimensional array is the list of its rows. The functions below are those of the
  backend \<^verbatim>\<open>xp\<close> (numpy) that \<^verbatim>\<open>reortho\<close> calls. The decomposition \<^verbatim>\<open>qr\<close> itself is
  the backend's and stays a parameter \<open>qr\<close> of the model, returning the pair \<open>(Q, R)\<close>.
  In reduced mode \<open>Q\<close> has the shape of the factored matrix and \<open>R\<close> is square, so that
  the products and the assignments into \<^verbatim>\<open>self.phia[iw]\<close> below never meet a shape
  mismatch; the model does not check shapes.
\<close>

type_synonym matrix = "complex list list"

definition ncols :: "matrix \<Rightarrow> nat" where
  "ncols A = (case A of [] \<Rightarrow> 0 | r # _ \<Rightarrow> length r)"

text \<open>\<^verbatim>\<open>xp.diag\<close> of a two-dimensional array: its main diagonal.\<close>

definition diag :: "matrix \<Rightarrow> complex list" where
  "diag R = map (\<lambda>k. R ! k ! k) [0..<min (length R) (ncols R)]"

text \<open>\<^verbatim>\<open>xp.diag\<close> of a one-dimensional array: the square matrix with that diagonal.\<close>

definition diag_matrix :: "complex list \<Rightarrow> matrix" where
  "diag_matrix v =
     map (\<lambda>i. map (\<lambda>j. if i = j then v ! i else 0) [0..<length v]) [0..<length v]"

text \<open>\<^verbatim>\<open>xp.dot\<close> of two two-dimensional arrays: the matrix product.\<close>

definition dot :: "matrix \<Rightarrow> matrix \<Rightarrow> matrix" where
  "dot A B =
     map (\<lambda>row. map (\<lambda>j. sum_list (map (\<lambda>k. row ! k * B ! k ! j) [0..<length B]))
                     [0..<ncols B]) A"

text \<open>
  \<^verbatim>\<open>xp.sign\<close> is \<open>sgn\<close>, that is \<open>z / |z|\<close> and \<open>0\<close> at \<open>0\<close>; on a real entry it is \<open>\<plusminus>1\<close>.
  (numpy before version 2 takes the sign of the real part of a complex entry instead;
  the two agree on real entries, and the concrete batches below have real entries only.)
  \<^verbatim>\<open>xp.log(xp.abs(d))\<close> of a diagonal is real; \<^verbatim>\<open>xp.log\<close> of the complex \<^verbatim>\<open>detR[iw]\<close> is
  the principal logarithm \<open>clog\<close>.
\<close>

definition clog :: "complex \<Rightarrow> complex" where
  "clog z = Complex (ln (cmod z)) (Arg z)"

text \<open>\<^verbatim>\<open>xp.sum(xp.log(xp.abs(d)))\<close> over one diagonal.\<close>

definition log_abs_sum :: "complex list \<Rightarrow> real" where
  "log_abs_sum d = sum_list (map (\<lambda>x. ln (cmod x)) d)"

text \<open>
  Elementwise operations on one-dimensional arrays follow numpy's broadcasting: equal
  lengths combine pointwise, a length-one operand is repeated, anything else raises
  \<^verbatim>\<open>ValueError\<close>. The in-place form \<^verbatim>\<open>a += b\<close> keeps the shape of \<open>a\<close>.
\<close>

definition bcast :: "('a \<Rightarrow> 'b \<Rightarrow> 'c) \<Rightarrow> 'a list \<Rightarrow> 'b list \<Rightarrow> error + 'c list" where
  "bcast f xs ys =
     (if length xs = length ys then Inr (map2 f xs ys)
      else if length xs = 1 then Inr (map (f (hd xs)) ys)
      else if length ys = 1 then Inr (map (\<lambda>x. f x (hd ys)) xs)
      else Inl ValueError)"

definition bcast_inplace :: "('a \<Rightarrow> 'b \<Rightarrow> 'a) \<Rightarrow> 'a list \<Rightarrow> 'b list \<Rightarrow> error + 'a list" where
  "bcast_inplace f xs ys =
     (if length xs = length ys then Inr (map2 f xs ys)
      else if length ys = 1 then Inr (map (\<lambda>x. f x (hd ys)) xs)
      else Inl ValueError)"

subsection \<open>The batch as \<^verbatim>\<open>reortho\<close> sees it\<close>

text \<open>
  The fields of \<^verbatim>\<open>self\<close> that \<^verbatim>\<open>reortho\<close> and \<^verbatim>\<open>reortho_batched\<close> read or write.
  \<open>phia\<close> and \<open>phib\<close> hold one matrix per walker, the ledger fields one number per
  walker.
\<close>

record walkers =
  nup :: nat
  ndown :: nat
  nwalkers :: nat
  phia :: "matrix list"
  phib :: "matrix list"
  detR :: "complex list"
  log_detR :: "complex list"
  detR_shift :: "complex list"
  ovlp :: "complex list"

text \<open>The invariant of a constructed batch: every per-walker array has \<open>nwalkers\<close> entries.\<close>

definition batch_ok :: "walkers \<Rightarrow> bool" where
  "batch_ok s \<longleftrightarrow>
     length (phia s) = nwalkers s \<and> length (phib s) = nwalkers s \<and>
     length (detR s) = nwalkers s \<and> length (log_detR s) = nwalkers s \<and>
     length (detR_shift s) = nwalkers s \<and> length (ovlp s) = nwalkers s"

subsection \<open>\<^verbatim>\<open>reortho\<close>: one walker at a time\<close>

text \<open>
  Lines 144--157 for the up channel and 160--164 for the down channel do the same thing
  to one matrix: factor it, move the signs of the diagonal of \<open>R\<close> into the columns of
  \<open>Q\<close>, and sum the logarithms of the absolute diagonal. \<open>sign_fixed_qr\<close> returns the new
  matrix and that sum.
\<close>

definition sign_fixed_qr :: "(matrix \<Rightarrow> matrix \<times> matrix) \<Rightarrow> matrix \<Rightarrow> matrix \<times> real" where
  "sign_fixed_qr qr phi =
     (let (Q, R) = qr phi;
          R_diag = diag R;
          signs = map sgn R_diag
      in (dot Q (diag_matrix signs), log_abs_sum R_diag))"

text \<open>
  The body of the loop for walker \<open>iw\<close>. \<open>acc\<close> is the local list \<^verbatim>\<open>detR\<close>; the body
  appends to it and then reads \<^verbatim>\<open>detR[iw]\<close>. An index outside an array raises
  \<^verbatim>\<open>IndexError\<close>.
\<close>

definition reortho_walker ::
  "(matrix \<Rightarrow> matrix \<times> matrix) \<Rightarrow> walkers \<Rightarrow> complex list \<Rightarrow> nat
     \<Rightarrow> error + (walkers \<times> complex list)" where
  "reortho_walker qr s acc iw =
     (if \<not> iw < length (phia s) then Inl IndexError
      else
        let (pa, ld_up) = sign_fixed_qr qr (phia s ! iw);
            s1 = s\<lparr>phia := (phia s)[iw := pa]\<rparr>
        in if 0 < ndown s1 \<and> \<not> iw < length (phib s1) then Inl IndexError
           else
             let (s2, log_det) =
                   (if 0 < ndown s1
                    then let (pb, ld_dn) = sign_fixed_qr qr (phib s1 ! iw)
                         in (s1\<lparr>phib := (phib s1)[iw := pb]\<rparr>, ld_up + ld_dn)
                    else (s1, ld_up))
             in if \<not> iw < length (detR_shift s2) then Inl IndexError
                else
                  let acc' = acc @ [exp (of_real log_det - detR_shift s2 ! iw)]
                  in if \<not> (iw < length acc' \<and> iw < length (log_detR s2) \<and>
                            iw < length (detR s2) \<and> iw < length (ovlp s2))
                     then Inl IndexError
                     else
                       Inr (s2\<lparr>log_detR := (log_detR s2)[iw := log_detR s2 ! iw + clog (acc' ! iw)],
                               detR := (detR s2)[iw := acc' ! iw],
                               ovlp := (ovlp s2)[iw := ovlp s2 ! iw / acc' ! iw]\<rparr>,
                            acc'))"

fun reortho_loop ::
  "(matrix \<Rightarrow> matrix \<times> matrix) \<Rightarrow> nat list \<Rightarrow> walkers \<times> complex list
     \<Rightarrow> error + (walkers \<times> complex list)" where
  "reortho_loop qr [] st = Inr st"
| "reortho_loop qr (iw # iws) (s, acc) =
     (case reortho_walker qr s acc iw of
        Inl e \<Rightarrow> Inl e
      | Inr st' \<Rightarrow> reortho_loop qr iws st')"

subsection \<open>\<^verbatim>\<open>reortho_batched\<close>: the whole batch at once\<close>

text \<open>
  The stacked \<^verbatim>\<open>qr\<close> factors every walker's matrix; \<^verbatim>\<open>einsum("wii->wi")\<close> takes each
  diagonal and \<^verbatim>\<open>einsum("wi->w")\<close> sums along it. The result is the returned
  \<^verbatim>\<open>self.detR\<close> and the batch.
\<close>

definition reortho_batched ::
  "bool \<Rightarrow> (matrix \<Rightarrow> matrix \<times> matrix) \<Rightarrow> walkers \<Rightarrow> error + (complex list \<times> walkers)" where
  "reortho_batched use_gpu qr s =
     (if \<not> use_gpu then Inl AssertionError
      else
        let QRa = map qr (phia s);
            s1 = s\<lparr>phia := map fst QRa\<rparr>;
            Rup_diag = map (diag \<circ> snd) QRa;
            log_det = map log_abs_sum Rup_diag
        in case (if 0 < ndown s1
                 then let QRb = map qr (phib s1);
                          s2 = s1\<lparr>phib := map fst QRb\<rparr>;
                          Rdn_diag = map (diag \<circ> snd) QRb
                      in case bcast_inplace (+) log_det (map log_abs_sum Rdn_diag) of
                           Inl e \<Rightarrow> Inl e
                         | Inr log_det' \<Rightarrow> Inr (s2, log_det')
                 else Inr (s1, log_det)) of
             Inl e \<Rightarrow> Inl e
           | Inr (s2, log_det) \<Rightarrow>
               (case bcast (\<lambda>l sh. exp (of_real l - sh)) log_det (detR_shift s2) of
                  Inl e \<Rightarrow> Inl e
                | Inr detR' \<Rightarrow>
                    (case bcast (/) (ovlp s2) detR' of
                       Inl e \<Rightarrow> Inl e
                     | Inr ovlp' \<Rightarrow> Inr (detR', s2\<lparr>detR := detR', ovlp := ovlp'\<rparr>))))"

text \<open>
  \<^verbatim>\<open>reortho\<close> hands over to \<^verbatim>\<open>reortho_batched\<close> when the configuration option
  \<^verbatim>\<open>use_gpu\<close> is set, and loops over \<^verbatim>\<open>range(self.nwalkers)\<close> otherwise. It returns the
  local list \<^verbatim>\<open>detR\<close> and the batch. \<^verbatim>\<open>synchronize()\<close> waits for the device and changes
  no value, in either mode.
\<close>

definition reortho ::
  "bool \<Rightarrow> (matrix \<Rightarrow> matrix \<times> matrix) \<Rightarrow> walkers \<Rightarrow> error + (complex list \<times> walkers)" where
  "reortho use_gpu qr s =
     (if use_gpu then reortho_batched use_gpu qr s
      else case reortho_loop qr [0..<nwalkers s] (s, []) of
             Inl e \<Rightarrow> Inl e
           | Inr (s', acc) \<Rightarrow> Inr (acc, s'))"


subsection \<open>The closed form of one pass\<close>

text \<open>
  What the pass computes for walker \<open>i\<close>, from the batch it starts with: the accumulated
  logarithm \<open>log_det\<close> of the absolute diagonals (the down channel only when
  \<open>ndown > 0\<close>) and \<^verbatim>\<open>exp(log_det - self.detR_shift[i])\<close>.
\<close>

definition walker_log_det :: "(matrix \<Rightarrow> matrix \<times> matrix) \<Rightarrow> walkers \<Rightarrow> nat \<Rightarrow> real" where
  "walker_log_det qr s i =
     log_abs_sum (diag (snd (qr (phia s ! i)))) +
     (if 0 < ndown s then log_abs_sum (diag (snd (qr (phib s ! i)))) else 0)"

definition walker_detR :: "(matrix \<Rightarrow> matrix \<times> matrix) \<Rightarrow> walkers \<Rightarrow> nat \<Rightarrow> complex" where
  "walker_detR qr s i = exp (of_real (walker_log_det qr s i) - detR_shift s ! i)"

definition new_phia :: "(matrix \<Rightarrow> matrix \<times> matrix) \<Rightarrow> walkers \<Rightarrow> nat \<Rightarrow> matrix" where
  "new_phia qr s i = fst (sign_fixed_qr qr (phia s ! i))"

definition new_phib :: "(matrix \<Rightarrow> matrix \<times> matrix) \<Rightarrow> walkers \<Rightarrow> nat \<Rightarrow> matrix" where
  "new_phib qr s i = (if 0 < ndown s then fst (sign_fixed_qr qr (phib s ! i)) else phib s ! i)"

text \<open>The batch after the first \<open>n\<close> iterations of the loop of \<^verbatim>\<open>reortho\<close>.\<close>

definition reortho_upto :: "(matrix \<Rightarrow> matrix \<times> matrix) \<Rightarrow> walkers \<Rightarrow> nat \<Rightarrow> walkers" where
  "reortho_upto qr s n =
     s\<lparr>phia := map (\<lambda>i. if i < n then new_phia qr s i else phia s ! i) [0..<nwalkers s],
       phib := map (\<lambda>i. if i < n then new_phib qr s i else phib s ! i) [0..<nwalkers s],
       log_detR := map (\<lambda>i. if i < n then log_detR s ! i + clog (walker_detR qr s i)
                               else log_detR s ! i) [0..<nwalkers s],
       detR := map (\<lambda>i. if i < n then walker_detR qr s i else detR s ! i) [0..<nwalkers s],
       ovlp := map (\<lambda>i. if i < n then ovlp s ! i / walker_detR qr s i else ovlp s ! i)
                 [0..<nwalkers s]\<rparr>"

subsection \<open>A concrete backend and concrete batches\<close>

text \<open>
  For a matrix that is already upper triangular (zero below the diagonal) every
  Householder reflection of the decomposition is the identity: \<open>Q\<close> is the leading columns
  of the identity matrix and \<open>R\<close> the leading rows of the matrix itself. \<open>qr_triangular\<close>
  is the backend on such inputs, in reduced mode.
\<close>

definition eye :: "nat \<Rightarrow> matrix" where
  "eye n = map (\<lambda>i. map (\<lambda>j. if i = j then 1 else 0) [0..<n]) [0..<n]"

definition qr_triangular :: "matrix \<Rightarrow> matrix \<times> matrix" where
  "qr_triangular A = (map (take (ncols A)) (eye (length A)), take (ncols A) A)"

text \<open>
  Two walkers over two basis functions, one electron per spin. The first walker's up
  orbital has a negative diagonal entry. \<open>ex_batch\<close> has been through an earlier pass:
  its \<open>detR\<close> is not all ones.
\<close>

definition ex_batch :: walkers where
  "ex_batch =
     \<lparr>nup = 1, ndown = 1, nwalkers = 2,
      phia = [[[-2], [0]], [[1], [0]]],
      phib = [[[1], [0]], [[1], [0]]],
      detR = [3, 1], log_detR = [0, 0], detR_shift = [0, 0], ovlp = [1, 1]\<rparr>"

text \<open>A fully polarised batch: no down electrons, \<open>phib\<close> has no columns.\<close>

definition ex_polarised :: walkers where
  "ex_polarised =
     \<lparr>nup = 1, ndown = 0, nwalkers = 2,
      phia = [[[-2], [0]], [[1], [0]]],
      phib = [[[], []], [[], []]],
      detR = [1, 1], log_detR = [0, 0], detR_shift = [0, 0], ovlp = [1, 1]\<rparr>"


section \<open>Construction and variant dispatch\<close>

subsection \<open>Arrays and the store\<close>

text \<open>
  A numpy array is its shape and its elements in row-major order. \<open>asize\<close> is
  \<^verbatim>\<open>.size\<close>. Arrays live in a store: an array object is an address, \<open>cells\<close> gives the
  array at an address and \<open>fresh\<close> is the next unused address, so that two names
  alias exactly when they hold the same address.
\<close>

record ndarray =
  shape :: "nat list"
  elems :: "complex list"

definition asize :: "ndarray \<Rightarrow> nat" where
  "asize a = prod_list (shape a)"

record heap =
  cells :: "nat \<Rightarrow> ndarray"
  fresh :: nat

definition alloc :: "ndarray \<Rightarrow> heap \<Rightarrow> nat \<times> heap" where
  "alloc a h = (fresh h, h\<lparr>cells := (cells h)(fresh h := a), fresh := Suc (fresh h)\<rparr>)"

text \<open>
  \<^verbatim>\<open>numpy.zeros\<close>: a negative dimension raises \<^verbatim>\<open>ValueError\<close>. \<open>np_zeros_all\<close> makes the
  named arrays of a run of assignments \<^verbatim>\<open>self.x = numpy.zeros(...)\<close>, in order, and
  stops at the first that raises.
\<close>

definition zeros :: "nat list \<Rightarrow> ndarray" where
  "zeros sh = \<lparr>shape = sh, elems = replicate (prod_list sh) 0\<rparr>"

definition np_zeros :: "int list \<Rightarrow> error + ndarray" where
  "np_zeros sh = (if list_ex (\<lambda>d. d < 0) sh then Inl ValueError else Inr (zeros (map nat sh)))"

fun np_zeros_all :: "(string \<times> int list) list \<Rightarrow> error + (string \<times> ndarray) list" where
  "np_zeros_all [] = Inr []"
| "np_zeros_all ((name, sh) # rest) =
     (case np_zeros sh of
        Inl e \<Rightarrow> Inl e
      | Inr a \<Rightarrow> (case np_zeros_all rest of
                    Inl e \<Rightarrow> Inl e
                  | Inr as \<Rightarrow> Inr ((name, a) # as)))"

text \<open>
  The rows of a two-dimensional array, and the two column slices of the constructor.
  A slice bound is clipped as Python clips it: a negative bound counts from the end.
  \<open>cols_to k a\<close> is \<^verbatim>\<open>a[:, :k].copy()\<close> and \<open>cols_from k a\<close> is \<^verbatim>\<open>a[:, k:].copy()\<close>: the
  copy is a new array value.
\<close>

definition blocks :: "nat \<Rightarrow> nat \<Rightarrow> 'a list \<Rightarrow> 'a list list" where
  "blocks n sz xs = map (\<lambda>i. take sz (drop (i * sz) xs)) [0..<n]"

definition rows_of :: "ndarray \<Rightarrow> complex list list" where
  "rows_of a = (case shape a of [r, c] \<Rightarrow> blocks r c (elems a) | _ \<Rightarrow> [])"

definition slice_bound :: "int \<Rightarrow> nat \<Rightarrow> nat" where
  "slice_bound k n = nat (if k < 0 then max 0 (int n + k) else min k (int n))"

definition cols_to :: "int \<Rightarrow> ndarray \<Rightarrow> ndarray" where
  "cols_to k a =
     (case shape a of
        [r, c] \<Rightarrow> \<lparr>shape = [r, slice_bound k c],
                   elems = concat (map (take (slice_bound k c)) (rows_of a))\<rparr>
      | _ \<Rightarrow> a)"

definition cols_from :: "int \<Rightarrow> ndarray \<Rightarrow> ndarray" where
  "cols_from k a =
     (case shape a of
        [r, c] \<Rightarrow> \<lparr>shape = [r, c - slice_bound k c],
                   elems = concat (map (drop (slice_bound k c)) (rows_of a))\<rparr>
      | _ \<Rightarrow> a)"

text \<open>
  \<^verbatim>\<open>numpy.array\<close> of a list of equally shaped arrays: a new array with one more leading
  axis, holding the elements of the list's arrays one after the other.
\<close>

definition np_array :: "ndarray list \<Rightarrow> ndarray" where
  "np_array as =
     (case as of
        [] \<Rightarrow> \<lparr>shape = [0], elems = []\<rparr>
      | a # _ \<Rightarrow> \<lparr>shape = length as # shape a, elems = concat (map elems as)\<rparr>)"

text \<open>
  Walker \<open>i\<close> of a three-dimensional array \<^verbatim>\<open>phi[i]\<close>, as the list of its rows, and the
  assignment \<^verbatim>\<open>phi[i] = m\<close> into the array at an address of the store.
\<close>

definition walker_rows :: "ndarray \<Rightarrow> nat \<Rightarrow> complex list list" where
  "walker_rows a i =
     (case shape a of
        [n, r, c] \<Rightarrow> blocks r c (take (r * c) (drop (i * (r * c)) (elems a)))
      | _ \<Rightarrow> [])"

definition set_walker :: "nat \<Rightarrow> nat \<Rightarrow> complex list list \<Rightarrow> heap \<Rightarrow> heap" where
  "set_walker p i m h =
     (let a = cells h p;
          sz = (case shape a of [n, r, c] \<Rightarrow> r * c | _ \<Rightarrow> 0)
      in h\<lparr>cells := (cells h)
             (p := a\<lparr>elems := take (i * sz) (elems a) @ concat m @ drop (Suc i * sz) (elems a)\<rparr>)\<rparr>)"

text \<open>
  \<^verbatim>\<open>numpy.hstack\<close> of two arrays. A zero-dimensional array counts as one element. If
  the first array is one-dimensional both are joined end to end; otherwise they are
  joined along the second axis and must agree on every other axis.
\<close>

definition atleast_1d :: "ndarray \<Rightarrow> ndarray" where
  "atleast_1d a = (if shape a = [] then a\<lparr>shape := [1]\<rparr> else a)"

definition hstack :: "ndarray \<Rightarrow> ndarray \<Rightarrow> error + ndarray" where
  "hstack a0 b0 =
     (let a = atleast_1d a0; b = atleast_1d b0
      in case (shape a, shape b) of
           ([n], [m]) \<Rightarrow> Inr \<lparr>shape = [n + m], elems = elems a @ elems b\<rparr>
         | (r # c # rest, r' # c' # rest') \<Rightarrow>
             if r = r' \<and> rest = rest'
             then Inr \<lparr>shape = r # (c + c') # rest,
                       elems = concat (map2 (@) (blocks r (c * prod_list rest) (elems a))
                                                (blocks r (c' * prod_list rest) (elems b)))\<rparr>
             else Inl ValueError
         | _ \<Rightarrow> Inl ValueError)"

subsection \<open>Trial wave functions\<close>

text \<open>
  The class of a trial wave function and the attributes the walkers read. \<open>OtherTrial\<close>
  is any further subclass of \<^verbatim>\<open>TrialWavefunctionBase\<close>.
\<close>

datatype trial_class =
    SingleDet
  | ParticleHoleWicks
  | ParticleHoleWicksNonChunked
  | ParticleHoleNaive
  | OtherTrial

record trial =
  class_of :: trial_class
  psi :: ndarray
  psi0a :: ndarray
  psi0b :: ndarray
  num_dets_for_trial :: int
  nact :: int
  nocc_alpha :: int
  nocc_beta :: int

text \<open>
  Modelled from the spec: the class declarations of \<^verbatim>\<open>ipie.trial_wavefunction\<close> are not
  in the source. The spec's variant tags are separate cases, none a subtype of another,
  so \<^verbatim>\<open>isinstance\<close> holds exactly for the object's own class.
\<close>

definition isinstance :: "trial \<Rightarrow> trial_class \<Rightarrow> bool" where
  "isinstance t c \<longleftrightarrow> class_of t = c"

definition get_initial_walker :: "trial \<Rightarrow> error + (int \<times> ndarray)" where
  "get_initial_walker t =
     (if isinstance t SingleDet then Inr (1, psi t)
      else if isinstance t ParticleHoleWicks then
        (case hstack (psi0a t) (psi0b t) of
           Inl e \<Rightarrow> Inl e
         | Inr initial_walker \<Rightarrow> Inr (num_dets_for_trial t, initial_walker))
      else if isinstance t ParticleHoleWicksNonChunked then
        (case hstack (psi0a t) (psi0b t) of
           Inl e \<Rightarrow> Inl e
         | Inr initial_walker \<Rightarrow> Inr (num_dets_for_trial t, initial_walker))
      else Inl (Exception ''Unrecognized trial type in get_initial_walker''))"

subsection \<open>The walker classes\<close>

datatype walker_class =
    UHFWalkers
  | UHFWalkersParticleHole
  | UHFWalkersParticleHoleNaive

text \<open>The dictionary \<^verbatim>\<open>UHFWalkersTrial\<close>; subscripting it with a missing key raises \<^verbatim>\<open>KeyError\<close>.\<close>

definition UHFWalkersTrial :: "trial_class \<rightharpoonup> walker_class" where
  "UHFWalkersTrial =
     [SingleDet \<mapsto> UHFWalkers,
      ParticleHoleWicks \<mapsto> UHFWalkersParticleHole,
      ParticleHoleWicksNonChunked \<mapsto> UHFWalkersParticleHole,
      ParticleHoleNaive \<mapsto> UHFWalkersParticleHoleNaive]"

definition UHFWalkersTrial_getitem :: "trial_class \<Rightarrow> error + walker_class" where
  "UHFWalkersTrial_getitem c =
     (case UHFWalkersTrial c of None \<Rightarrow> Inl KeyError | Some w \<Rightarrow> Inr w)"

text \<open>
  A batch object. \<open>self_phia\<close> and \<open>self_phib\<close> are addresses of the store; the other
  arrays, all made by \<^verbatim>\<open>numpy.zeros\<close> and shared with nothing, are kept by name in
  \<open>self_attrs\<close>. \<^verbatim>\<open>self.field_configs = None\<close> carries no data and is left out.
\<close>

record uhf_walkers =
  self_class :: walker_class
  self_nup :: int
  self_ndown :: int
  self_nbasis :: int
  self_nwalkers :: int
  self_phia :: nat
  self_phib :: nat
  self_attrs :: "string \<rightharpoonup> ndarray"
  self_buff_names :: "string list"
  self_buff_size :: int
  self_walker_buffer :: ndarray
  self_rhf :: bool
  self_ndets :: "int option"

text \<open>
  \<^verbatim>\<open>BaseWalkers\<close> is not in the source. What its constructor leaves behind that this
  file uses is a parameter: the registered names \<^verbatim>\<open>self.buff_names\<close> and, for sizing, the
  attributes it created with their sizes. It is taken to store \<^verbatim>\<open>nup\<close>, \<^verbatim>\<open>ndown\<close> and
  \<^verbatim>\<open>nwalkers = num_walkers_local\<close> unchanged and not to raise.
\<close>

record base_walkers =
  base_buff_names :: "string list"
  base_sizes :: "(string \<times> nat) list"

text \<open>
  Modelled from the spec: \<^verbatim>\<open>BaseWalkers.set_buff_size_single_walker\<close> is not in the
  source. It sums the sizes of the fields of the batch that are registered in
  \<^verbatim>\<open>self.buff_names\<close>; \<open>sizes\<close> lists the fields present with their sizes.
\<close>

definition set_buff_size_single_walker :: "string list \<Rightarrow> (string \<times> nat) list \<Rightarrow> nat" where
  "set_buff_size_single_walker names sizes =
     sum_list (map snd (filter (\<lambda>(name, sz). name \<in> set names) sizes))"

text \<open>\<^verbatim>\<open>round(a / float(n))\<close> for \<open>n > 0\<close>: to the nearest integer, a tie to the even one.\<close>

definition py_round_div :: "nat \<Rightarrow> nat \<Rightarrow> nat" where
  "py_round_div a n =
     (let q = a div n; r = a mod n
      in if 2 * r < n then q
         else if n < 2 * r then q + 1
         else if even q then q else q + 1)"


subsection \<open>Constructors\<close>

text \<open>
  \<^verbatim>\<open>UHFWalkers.__init__\<close>, with \<^verbatim>\<open>verbose\<close> off. \<open>initial_walker\<close> is the address of
  the initial orbital matrix. The two list comprehensions copy a column slice once per
  walker and \<^verbatim>\<open>numpy.array\<close> packs the copies into one new array, which is allocated.
  The division by \<^verbatim>\<open>float(self.nwalkers)\<close> raises when there are no walkers.
\<close>

definition UHFWalkers_init ::
  "base_walkers \<Rightarrow> heap \<Rightarrow> nat \<Rightarrow> int \<Rightarrow> int \<Rightarrow> int \<Rightarrow> int \<Rightarrow> error + (uhf_walkers \<times> heap)" where
  "UHFWalkers_init base h initial_walker n_up n_down n_basis num_walkers_local =
     (let iw = cells h initial_walker
      in if length (shape iw) \<noteq> 2 then Inl AssertionError
         else
           let n = num_walkers_local;
               (pa, h1) = alloc (np_array (map (\<lambda>_. cols_to n_up iw) [0..<nat n])) h;
               (pb, h2) = alloc (np_array (map (\<lambda>_. cols_from n_up iw) [0..<nat n])) h1
           in case np_zeros_all
                     [(''Ga'', [n, n_basis, n_basis]), (''Gb'', [n, n_basis, n_basis]),
                      (''Ghalfa'', [n, n_up, n_basis]), (''Ghalfb'', [n, n_down, n_basis])] of
                Inl e \<Rightarrow> Inl e
              | Inr gs \<Rightarrow>
                  let buff_names = base_buff_names base @ [''phia, phib''];
                      sizes = base_sizes base @
                              [(''phia'', asize (cells h2 pa)), (''phib'', asize (cells h2 pb))] @
                              map (\<lambda>(name, a). (name, asize a)) gs
                  in if n = 0 then Inl ZeroDivisionError
                     else
                       let buff_size = py_round_div (set_buff_size_single_walker buff_names sizes)
                                                    (nat n)
                       in Inr (\<lparr>self_class = UHFWalkers,
                                self_nup = n_up, self_ndown = n_down, self_nbasis = n_basis,
                                self_nwalkers = n,
                                self_phia = pa, self_phib = pb,
                                self_attrs = map_of gs,
                                self_buff_names = buff_names,
                                self_buff_size = int buff_size,
                                self_walker_buffer = zeros [buff_size],
                                self_rhf = False,
                                self_ndets = None\<rparr>, h2))"

text \<open>\<^verbatim>\<open>UHFWalkersParticleHole.__init__\<close>: the base constructor, then the reference arrays.\<close>

definition UHFWalkersParticleHole_init ::
  "base_walkers \<Rightarrow> heap \<Rightarrow> nat \<Rightarrow> int \<Rightarrow> int \<Rightarrow> int \<Rightarrow> int \<Rightarrow> int
     \<Rightarrow> error + (uhf_walkers \<times> heap)" where
  "UHFWalkersParticleHole_init base h initial_walker n_up n_down n_basis num_walkers_local ndets =
     (case UHFWalkers_init base h initial_walker n_up n_down n_basis num_walkers_local of
        Inl e \<Rightarrow> Inl e
      | Inr (w, h') \<Rightarrow>
          (case np_zeros_all
                  [(''G0a'', [self_nwalkers w, self_nbasis w, self_nbasis w]),
                   (''G0b'', [self_nwalkers w, self_nbasis w, self_nbasis w]),
                   (''Q0a'', [self_nwalkers w, self_nbasis w, self_nbasis w]),
                   (''Q0b'', [self_nwalkers w, self_nbasis w, self_nbasis w])] of
             Inl e \<Rightarrow> Inl e
           | Inr as \<Rightarrow>
               Inr (w\<lparr>self_class := UHFWalkersParticleHole, self_ndets := Some ndets,
                       self_attrs := self_attrs w ++ map_of as\<rparr>, h')))"

text \<open>\<^verbatim>\<open>UHFWalkersParticleHoleNaive.__init__\<close>: the base constructor, then the per-determinant arrays.\<close>

definition UHFWalkersParticleHoleNaive_init ::
  "base_walkers \<Rightarrow> heap \<Rightarrow> nat \<Rightarrow> int \<Rightarrow> int \<Rightarrow> int \<Rightarrow> int \<Rightarrow> int
     \<Rightarrow> error + (uhf_walkers \<times> heap)" where
  "UHFWalkersParticleHoleNaive_init base h initial_walker n_up n_down n_basis num_walkers_local ndets =
     (case UHFWalkers_init base h initial_walker n_up n_down n_basis num_walkers_local of
        Inl e \<Rightarrow> Inl e
      | Inr (w, h') \<Rightarrow>
          (case np_zeros_all
                  [(''det_weights'', [self_nwalkers w, ndets]),
                   (''det_ovlpas'', [self_nwalkers w, ndets]),
                   (''det_ovlpbs'', [self_nwalkers w, ndets]),
                   (''Gia'', [self_nwalkers w, ndets, self_nbasis w, self_nbasis w]),
                   (''Gib'', [self_nwalkers w, ndets, self_nbasis w, self_nbasis w]),
                   (''Gihalfa'', [self_nwalkers w, ndets, self_nup w, self_nbasis w]),
                   (''Gihalfb'', [self_nwalkers w, ndets, self_ndown w, self_nbasis w])] of
             Inl e \<Rightarrow> Inl e
           | Inr as \<Rightarrow>
               Inr (w\<lparr>self_class := UHFWalkersParticleHoleNaive, self_ndets := Some ndets,
                       self_attrs := self_attrs w ++ map_of as\<rparr>, h')))"

text \<open>
  The method \<^verbatim>\<open>build\<close> of the object's class. Only \<^verbatim>\<open>UHFWalkersParticleHole\<close> does
  anything: it makes \<^verbatim>\<open>CIa\<close> and \<^verbatim>\<open>CIb\<close>.
\<close>

definition build :: "trial \<Rightarrow> uhf_walkers \<Rightarrow> error + uhf_walkers" where
  "build t w =
     (case self_class w of
        UHFWalkers \<Rightarrow> Inr w
      | UHFWalkersParticleHole \<Rightarrow>
          (case np_zeros_all
                  [(''CIa'', [self_nwalkers w, nact t, nocc_alpha t]),
                   (''CIb'', [self_nwalkers w, nact t, nocc_beta t])] of
             Inl e \<Rightarrow> Inl e
           | Inr as \<Rightarrow> Inr (w\<lparr>self_attrs := self_attrs w ++ map_of as\<rparr>))
      | UHFWalkersParticleHoleNaive \<Rightarrow> Inr w)"

text \<open>The four arrays of zeros of \<^verbatim>\<open>UHFWalkers.__init__\<close>, once none of them has raised.\<close>

definition base_arrays :: "int \<Rightarrow> int \<Rightarrow> int \<Rightarrow> int \<Rightarrow> (string \<times> ndarray) list" where
  "base_arrays n_up n_down n_basis n =
     [(''Ga'', zeros [nat n, nat n_basis, nat n_basis]),
      (''Gb'', zeros [nat n, nat n_basis, nat n_basis]),
      (''Ghalfa'', zeros [nat n, nat n_up, nat n_basis]),
      (''Ghalfb'', zeros [nat n, nat n_down, nat n_basis])]"

subsection \<open>Concrete inputs\<close>

text \<open>
  A store holding one array at address \<open>0\<close>, and what \<^verbatim>\<open>BaseWalkers\<close> registers for a
  batch of two walkers: \<^verbatim>\<open>weight\<close> and \<^verbatim>\<open>ovlp\<close>, one number per walker each.
\<close>

definition store_of :: "ndarray \<Rightarrow> heap" where
  "store_of a = \<lparr>cells = (\<lambda>_. \<lparr>shape = [0], elems = []\<rparr>)(0 := a), fresh = 1\<rparr>"

definition ex_matrix :: ndarray where
  "ex_matrix = \<lparr>shape = [2, 2], elems = [1, 2, 3, 4]\<rparr>"

definition ex_wide :: ndarray where
  "ex_wide = \<lparr>shape = [2, 3], elems = [1, 2, 3, 4, 5, 6]\<rparr>"

definition ex_vector :: ndarray where
  "ex_vector = \<lparr>shape = [4], elems = [1, 2, 3, 4]\<rparr>"

definition ex_base :: base_walkers where
  "ex_base = \<lparr>base_buff_names = [''weight'', ''ovlp''],
              base_sizes = [(''weight'', 2), (''ovlp'', 2)]\<rparr>"

definition ex_trial :: "trial_class \<Rightarrow> trial" where
  "ex_trial c = \<lparr>class_of = c, psi = ex_matrix,
                 psi0a = \<lparr>shape = [2, 1], elems = [1, 3]\<rparr>,
                 psi0b = \<lparr>shape = [2, 1], elems = [2, 4]\<rparr>,
                 num_dets_for_trial = 3, nact = 2, nocc_alpha = 1, nocc_beta = 1\<rparr>"


section \<open>Reorthogonalisation: the loop in closed form\<close>

lemma reortho_loop_append:
  "reortho_loop qr (xs @ [x]) st =
     (case reortho_loop qr xs st of Inl e \<Rightarrow> Inl e | Inr (s, acc) \<Rightarrow> reortho_walker qr s acc x)"
  by (induction xs arbitrary: st) (auto split: sum.splits prod.splits)

lemma map_upd_upto:
  "n < N \<Longrightarrow> v = f n \<Longrightarrow>
     (map (\<lambda>i. if i < n then f i else g i) [0..<N])[n := v] =
     map (\<lambda>i. if i < Suc n then f i else g i) [0..<N]"
  by (rule nth_equalityI) (auto simp: nth_list_update less_Suc_eq)

lemma map_const_nth: "length xs = N \<Longrightarrow> map (\<lambda>i. xs ! i) [0..<N] = xs"
  by (auto simp: map_nth)

lemma reortho_upto_0: "batch_ok s \<Longrightarrow> reortho_upto qr s 0 = s"
  by (simp add: reortho_upto_def batch_ok_def map_const_nth)

lemma snd_sign_fixed_qr: "snd (sign_fixed_qr qr A) = log_abs_sum (diag (snd (qr A)))"
  by (simp add: sign_fixed_qr_def split_beta Let_def)

lemma fst_sign_fixed_qr:
  "fst (sign_fixed_qr qr A) = dot (fst (qr A)) (diag_matrix (map sgn (diag (snd (qr A)))))"
  by (simp add: sign_fixed_qr_def split_beta Let_def)

lemma reortho_walker_ok:
  assumes "iw < length (phia s)" "iw < length (phib s)" "iw < length (detR_shift s)"
    "iw < length (log_detR s)" "iw < length (detR s)" "iw < length (ovlp s)" "length acc = iw"
  shows "reortho_walker qr s acc iw =
     Inr (s\<lparr>phia := (phia s)[iw := new_phia qr s iw],
            phib := (phib s)[iw := new_phib qr s iw],
            log_detR := (log_detR s)[iw := log_detR s ! iw + clog (walker_detR qr s iw)],
            detR := (detR s)[iw := walker_detR qr s iw],
            ovlp := (ovlp s)[iw := ovlp s ! iw / walker_detR qr s iw]\<rparr>,
          acc @ [walker_detR qr s iw])"
proof (cases "0 < ndown s")
  case True
  with assms show ?thesis
    by (simp add: reortho_walker_def split_beta Let_def nth_append new_phia_def new_phib_def
        walker_detR_def walker_log_det_def snd_sign_fixed_qr)
next
  case False
  with assms show ?thesis
    by (simp add: reortho_walker_def split_beta Let_def nth_append new_phia_def new_phib_def
        walker_detR_def walker_log_det_def snd_sign_fixed_qr)
qed

lemma reortho_upto_sel:
  "nup (reortho_upto qr s n) = nup s"
  "ndown (reortho_upto qr s n) = ndown s"
  "nwalkers (reortho_upto qr s n) = nwalkers s"
  "detR_shift (reortho_upto qr s n) = detR_shift s"
  "phia (reortho_upto qr s n) =
     map (\<lambda>i. if i < n then new_phia qr s i else phia s ! i) [0..<nwalkers s]"
  "phib (reortho_upto qr s n) =
     map (\<lambda>i. if i < n then new_phib qr s i else phib s ! i) [0..<nwalkers s]"
  "log_detR (reortho_upto qr s n) =
     map (\<lambda>i. if i < n then log_detR s ! i + clog (walker_detR qr s i) else log_detR s ! i)
       [0..<nwalkers s]"
  "detR (reortho_upto qr s n) =
     map (\<lambda>i. if i < n then walker_detR qr s i else detR s ! i) [0..<nwalkers s]"
  "ovlp (reortho_upto qr s n) =
     map (\<lambda>i. if i < n then ovlp s ! i / walker_detR qr s i else ovlp s ! i) [0..<nwalkers s]"
  by (simp_all add: reortho_upto_def)

lemma walker_fns_upto:
  assumes "n < nwalkers s"
  shows "new_phia qr (reortho_upto qr s n) n = new_phia qr s n"
    "new_phib qr (reortho_upto qr s n) n = new_phib qr s n"
    "walker_detR qr (reortho_upto qr s n) n = walker_detR qr s n"
  using assms
  by (simp_all add: new_phia_def new_phib_def walker_detR_def walker_log_det_def reortho_upto_sel)

lemma reortho_walker_upto:
  assumes "batch_ok s" "n < nwalkers s"
  shows "reortho_walker qr (reortho_upto qr s n) (map (walker_detR qr s) [0..<n]) n
         = Inr (reortho_upto qr s (Suc n), map (walker_detR qr s) [0..<Suc n])"
proof -
  let ?u = "reortho_upto qr s n"
  have "reortho_walker qr ?u (map (walker_detR qr s) [0..<n]) n
      = Inr (?u\<lparr>phia := (phia ?u)[n := new_phia qr s n],
               phib := (phib ?u)[n := new_phib qr s n],
               log_detR := (log_detR ?u)[n := log_detR ?u ! n + clog (walker_detR qr s n)],
               detR := (detR ?u)[n := walker_detR qr s n],
               ovlp := (ovlp ?u)[n := ovlp ?u ! n / walker_detR qr s n]\<rparr>,
             map (walker_detR qr s) [0..<n] @ [walker_detR qr s n])"
    using assms
    by (subst reortho_walker_ok) (simp_all add: reortho_upto_sel walker_fns_upto batch_ok_def)
  also have "\<dots> = Inr (reortho_upto qr s (Suc n), map (walker_detR qr s) [0..<Suc n])"
    using assms by (simp add: reortho_upto_sel map_upd_upto)
  finally show ?thesis .
qed

lemma reortho_loop_upto:
  assumes "batch_ok s" "n \<le> nwalkers s"
  shows "reortho_loop qr [0..<n] (s, []) =
           Inr (reortho_upto qr s n, map (walker_detR qr s) [0..<n])"
  using assms(2)
proof (induction n)
  case 0
  then show ?case using assms(1) by (simp add: reortho_upto_0)
next
  case (Suc n)
  then have "reortho_loop qr [0..<n] (s, []) =
               Inr (reortho_upto qr s n, map (walker_detR qr s) [0..<n])"
    by simp
  moreover have "[0..<Suc n] = [0..<n] @ [n]"
    by simp
  ultimately show ?case
    using assms(1) Suc.prems by (simp only: reortho_loop_append) (simp add: reortho_walker_upto)
qed

lemma reortho_per_walker:
  assumes "batch_ok s"
  shows "reortho False qr s =
           Inr (map (walker_detR qr s) [0..<nwalkers s], reortho_upto qr s (nwalkers s))"
  using assms by (simp add: reortho_def reortho_loop_upto)

lemma bcast_same: "length xs = length ys \<Longrightarrow> bcast f xs ys = Inr (map2 f xs ys)"
  by (simp add: bcast_def)

lemma bcast_inplace_same:
  "length xs = length ys \<Longrightarrow> bcast_inplace f xs ys = Inr (map2 f xs ys)"
  by (simp add: bcast_inplace_def)

lemma batched_detR_list:
  assumes "batch_ok s"
  shows "map2 (\<lambda>l sh. exp (complex_of_real l - sh))
           (if 0 < ndown s
            then map2 (+) (map (log_abs_sum \<circ> (diag \<circ> snd) \<circ> qr) (phia s))
                          (map (log_abs_sum \<circ> (diag \<circ> snd) \<circ> qr) (phib s))
            else map (log_abs_sum \<circ> (diag \<circ> snd) \<circ> qr) (phia s))
           (detR_shift s)
         = map (walker_detR qr s) [0..<nwalkers s]"
  using assms
  by (intro nth_equalityI) (auto simp: batch_ok_def walker_detR_def walker_log_det_def)

lemma batched_ovlp_list:
  assumes "batch_ok s"
  shows "map2 (/) (ovlp s) (map (walker_detR qr s) [0..<nwalkers s])
         = map (\<lambda>i. ovlp s ! i / walker_detR qr s i) [0..<nwalkers s]"
  using assms by (intro nth_equalityI) (auto simp: batch_ok_def)

lemma reortho_batched_closed:
  assumes "batch_ok s"
  shows "reortho_batched True qr s =
     Inr (map (walker_detR qr s) [0..<nwalkers s],
          s\<lparr>phia := map (fst \<circ> qr) (phia s),
            phib := (if 0 < ndown s then map (fst \<circ> qr) (phib s) else phib s),
            detR := map (walker_detR qr s) [0..<nwalkers s],
            ovlp := map (\<lambda>i. ovlp s ! i / walker_detR qr s i) [0..<nwalkers s]\<rparr>)"
proof -
  have len: "length (phia s) = nwalkers s" "length (phib s) = nwalkers s"
    "length (detR_shift s) = nwalkers s" "length (ovlp s) = nwalkers s"
    using assms by (simp_all add: batch_ok_def)
  show ?thesis
  proof (cases "0 < ndown s")
    case True
    then show ?thesis
      using batched_detR_list [OF assms, of qr] batched_ovlp_list [OF assms, of qr]
      by (simp add: reortho_batched_def Let_def bcast_same bcast_inplace_same len)
  next
    case False
    then show ?thesis
      using batched_detR_list [OF assms, of qr] batched_ovlp_list [OF assms, of qr]
      by (simp add: reortho_batched_def Let_def bcast_same bcast_inplace_same len)
  qed
qed

text \<open>
  What the two modes do agree on, for every batch and backend: the returned values,
  \<open>detR\<close>, \<open>ovlp\<close>, and the fields neither writes.
\<close>

lemma reortho_modes_agree:
  assumes "batch_ok s"
    and "reortho False qr s = Inr (d1, s1)" and "reortho_batched True qr s = Inr (d2, s2)"
  shows "d1 = d2 \<and> detR s1 = detR s2 \<and> ovlp s1 = ovlp s2 \<and>
         detR_shift s1 = detR_shift s2 \<and> nwalkers s1 = nwalkers s2"
  using assms(2,3)
  by (auto simp: reortho_per_walker [OF assms(1)] reortho_batched_closed [OF assms(1)]
      reortho_upto_sel)


section \<open>The two modes on a concrete batch\<close>

lemma upt2: "[0..<2] = [0, Suc 0]"
  by (simp add: upt_rec numeral_2_eq_2)

lemma sign_fixed_qr_neg: "sign_fixed_qr qr_triangular [[- 2], [0]] = ([[- 1], [0]], ln 2)"
  by (simp add: sign_fixed_qr_def qr_triangular_def ncols_def eye_def diag_def diag_matrix_def
      dot_def log_abs_sum_def upt2 sgn_eq)

lemma sign_fixed_qr_pos: "sign_fixed_qr qr_triangular [[1], [0]] = ([[1], [0]], 0)"
  by (simp add: sign_fixed_qr_def qr_triangular_def ncols_def eye_def diag_def diag_matrix_def
      dot_def log_abs_sum_def upt2 sgn_eq)

lemma reortho_ex_batch:
  "reortho False qr_triangular ex_batch =
     Inr ([2, 1], ex_batch\<lparr>phia := [[[- 1], [0]], [[1], [0]]], log_detR := [clog 2, clog 1],
                            detR := [2, 1], ovlp := [1 / 2, 1]\<rparr>)"
  by (simp add: reortho_def ex_batch_def upt2 reortho_walker_def sign_fixed_qr_neg
      sign_fixed_qr_pos exp_of_real Let_def)

lemma reortho_batched_ex_batch:
  "reortho_batched True qr_triangular ex_batch =
     Inr ([2, 1], ex_batch\<lparr>phia := [[[1], [0]], [[1], [0]]], detR := [2, 1], ovlp := [1 / 2, 1]\<rparr>)"
  by (simp add: reortho_batched_def ex_batch_def bcast_def bcast_inplace_def qr_triangular_def
      ncols_def eye_def diag_def log_abs_sum_def upt2 exp_of_real Let_def)

lemma clog_2: "clog 2 \<noteq> 0"
proof
  assume "clog 2 = 0"
  then have "Re (clog 2) = 0" by simp
  then show False by (simp add: clog_def)
qed

lemma batch_ok_ex: "batch_ok ex_batch" "batch_ok ex_polarised"
  by (simp_all add: batch_ok_def ex_batch_def ex_polarised_def)

lemma clog_exp:
  assumes "- pi < Im z" and "Im z \<le> pi"
  shows "clog (exp z) = z"
proof -
  have "exp z = of_real (exp (Re z)) * cis (Im z)"
    by (rule exp_eq_polar)
  moreover have "cmod (exp z) = exp (Re z)"
    by simp
  ultimately have "sgn (exp z) = cis (Im z)"
    by (simp add: sgn_eq del: norm_exp_eq_Re)
  then have "Arg (exp z) = Im z"
    using assms by (rule cis_Arg_unique)
  then show ?thesis
    by (simp add: clog_def complex_eq_iff)
qed

section \<open>Claims about reorthogonalisation\<close>

text \<open>
  C1. The claim: the per-walker mode and the batched mode are functionally identical,
  with equal \<open>detR\<close> and every mutated field (\<open>phia\<close>, \<open>phib\<close>, \<open>detR\<close>, \<open>log_detR\<close>,
  \<open>ovlp\<close>) left in the same state. The code does not do this. On \<open>ex_batch\<close>, whose
  first up orbital factors with a negative diagonal entry, \<^verbatim>\<open>reortho\<close> stores the
  sign-fixed orbitals and adds \<open>log 2\<close> to \<open>log_detR\<close>, while \<^verbatim>\<open>reortho_batched\<close> stores
  the unfixed \<open>Q\<close> and leaves \<open>log_detR\<close> as it was. (\<open>reortho_modes_agree\<close> above is the
  part that does hold: returned values, \<open>detR\<close> and \<open>ovlp\<close>.)
\<close>

theorem reortho_modes_differ:
  "map_sum id (phia \<circ> snd) (reortho False qr_triangular ex_batch) = Inr [[[- 1], [0]], [[1], [0]]] \<and>
   map_sum id (phia \<circ> snd) (reortho_batched True qr_triangular ex_batch) = Inr [[[1], [0]], [[1], [0]]] \<and>
   map_sum id (log_detR \<circ> snd) (reortho False qr_triangular ex_batch) = Inr [clog 2, clog 1] \<and>
   map_sum id (log_detR \<circ> snd) (reortho_batched True qr_triangular ex_batch) = Inr [0, 0] \<and>
   clog 2 \<noteq> 0 \<and>
   reortho False qr_triangular ex_batch \<noteq> reortho_batched True qr_triangular ex_batch"
  using clog_2
  by (simp add: reortho_ex_batch reortho_batched_ex_batch) (simp add: ex_batch_def)

text \<open>
  C2, as stated: the correction multiplies \<open>detR[i]\<close> by
  \<open>exp(log_det - detR_shift[i])\<close>. It does not: \<open>detR[i]\<close> is overwritten. Walker \<open>0\<close> of
  \<open>ex_batch\<close> enters with \<open>detR = 3\<close> and leaves with \<open>2\<close>, not \<open>6\<close>.
\<close>

theorem apply_correction_counterexample:
  "map_sum id (hd \<circ> detR \<circ> snd) (reortho False qr_triangular ex_batch) \<noteq>
     Inr (hd (detR ex_batch) *
          exp (of_real (walker_log_det qr_triangular ex_batch 0) - hd (detR_shift ex_batch)))"
  by (simp add: reortho_ex_batch)
     (simp add: ex_batch_def walker_log_det_def qr_triangular_def ncols_def diag_def
        log_abs_sum_def exp_of_real)

text \<open>
  C2, amended. For every walker \<open>i\<close> of a batch, in both modes \<open>detR[i]\<close> is set to
  \<open>exp(log_det - detR_shift[i])\<close>, which is also the returned value, \<open>ovlp[i]\<close> is divided
  by that new \<open>detR[i]\<close>, and \<open>detR_shift\<close> is unchanged. In the per-walker mode
  \<open>log_detR[i]\<close> grows by the logarithm of the new \<open>detR[i]\<close>; this is
  \<open>log_det - detR_shift[i]\<close> when the imaginary part of the shift keeps the argument in
  the principal branch, hence \<open>log_det\<close> itself for a zero shift. Both calls return.
\<close>

theorem apply_correction_amended:
  assumes "batch_ok s" and "i < nwalkers s"
  shows "\<exists>d1 s1 d2 s2.
           reortho False qr s = Inr (d1, s1) \<and> reortho_batched True qr s = Inr (d2, s2) \<and>
           detR s1 ! i = exp (of_real (walker_log_det qr s i) - detR_shift s ! i) \<and>
           log_detR s1 ! i = log_detR s ! i + clog (detR s1 ! i) \<and>
           ovlp s1 ! i = ovlp s ! i / detR s1 ! i \<and>
           detR_shift s1 = detR_shift s \<and>
           detR s2 ! i = exp (of_real (walker_log_det qr s i) - detR_shift s ! i) \<and>
           ovlp s2 ! i = ovlp s ! i / detR s2 ! i \<and>
           detR_shift s2 = detR_shift s \<and>
           d1 ! i = detR s1 ! i \<and> d2 ! i = detR s2 ! i \<and>
           (- pi < - Im (detR_shift s ! i) \<and> - Im (detR_shift s ! i) \<le> pi \<longrightarrow>
              log_detR s1 ! i =
                log_detR s ! i + (of_real (walker_log_det qr s i) - detR_shift s ! i))"
proof -
  have "- pi < - Im (detR_shift s ! i) \<and> - Im (detR_shift s ! i) \<le> pi \<longrightarrow>
          clog (walker_detR qr s i) = of_real (walker_log_det qr s i) - detR_shift s ! i"
    unfolding walker_detR_def by (auto intro!: clog_exp)
  then show ?thesis
    using assms(2)
    by (simp add: reortho_per_walker [OF assms(1)] reortho_batched_closed [OF assms(1)]
        reortho_upto_sel walker_detR_def)
qed

text \<open>The amended C2 at walker \<open>0\<close> of \<open>ex_batch\<close>, with every hypothesis met.\<close>

theorem apply_correction_amended_witness:
  "batch_ok ex_batch \<and> (0::nat) < nwalkers ex_batch \<and>
   - pi < - Im (detR_shift ex_batch ! 0) \<and> - Im (detR_shift ex_batch ! 0) \<le> pi \<and>
   (\<exists>d1 s1 d2 s2.
      reortho False qr_triangular ex_batch = Inr (d1, s1) \<and>
      reortho_batched True qr_triangular ex_batch = Inr (d2, s2) \<and>
      detR s1 ! 0 =
        exp (of_real (walker_log_det qr_triangular ex_batch 0) - detR_shift ex_batch ! 0) \<and>
      log_detR s1 ! 0 = log_detR ex_batch ! 0 + clog (detR s1 ! 0) \<and>
      ovlp s1 ! 0 = ovlp ex_batch ! 0 / detR s1 ! 0 \<and>
      detR_shift s1 = detR_shift ex_batch \<and>
      detR s2 ! 0 =
        exp (of_real (walker_log_det qr_triangular ex_batch 0) - detR_shift ex_batch ! 0) \<and>
      ovlp s2 ! 0 = ovlp ex_batch ! 0 / detR s2 ! 0 \<and>
      detR_shift s2 = detR_shift ex_batch \<and>
      d1 ! 0 = detR s1 ! 0 \<and> d2 ! 0 = detR s2 ! 0 \<and>
      (- pi < - Im (detR_shift ex_batch ! 0) \<and> - Im (detR_shift ex_batch ! 0) \<le> pi \<longrightarrow>
         log_detR s1 ! 0 =
           log_detR ex_batch ! 0 +
           (of_real (walker_log_det qr_triangular ex_batch 0) - detR_shift ex_batch ! 0)))"
proof -
  have ok: "batch_ok ex_batch" and i: "(0::nat) < nwalkers ex_batch"
    by (simp_all add: batch_ok_def ex_batch_def)
  have im1: "- pi < - Im (detR_shift ex_batch ! 0)"
    and im2: "- Im (detR_shift ex_batch ! 0) \<le> pi"
    by (simp_all add: ex_batch_def)
  show ?thesis
    by (intro conjI) (rule ok i im1 im2 apply_correction_amended [OF ok i, of qr_triangular])+
qed


text \<open>
  The sign convention: multiplying a diagonal entry by the conjugate of its sign leaves
  its absolute value, which is real and not negative.
\<close>

lemma sgn_cnj_mult: "cnj (sgn d) * d = of_real (cmod d)" for d :: complex
proof (cases "d = 0")
  case True
  then show ?thesis by simp
next
  case False
  have "cnj d * d = of_real ((cmod d)\<^sup>2)"
    by (metis complex_norm_square mult.commute)
  then have "cnj (sgn d) * d = of_real ((cmod d)\<^sup>2) / of_real (cmod d)"
    by (simp add: sgn_eq)
  also have "\<dots> = of_real (cmod d)"
    using False by (simp add: power2_eq_square)
  finally show ?thesis .
qed

text \<open>The per-walker mode does fix the signs, in both channels, for every batch and backend.\<close>

lemma reortho_sign_fix:
  assumes "batch_ok s" and "i < nwalkers s" and "reortho False qr s = Inr (d, s')"
  shows "phia s' ! i = dot (fst (qr (phia s ! i))) (diag_matrix (map sgn (diag (snd (qr (phia s ! i))))))"
    and "0 < ndown s \<Longrightarrow>
         phib s' ! i = dot (fst (qr (phib s ! i))) (diag_matrix (map sgn (diag (snd (qr (phib s ! i))))))"
  using assms(2,3)
  by (auto simp: reortho_per_walker [OF assms(1)] reortho_upto_sel new_phia_def new_phib_def
      fst_sign_fixed_qr)

text \<open>
  C3. The claim: for every walker and every spin channel processed, after factoring
  \<open>phi = Q R\<close> the orbital matrix is replaced by \<open>Q diag(sign)\<close>, with the signs of the
  diagonal of \<open>R\<close>. \<^verbatim>\<open>reortho\<close> does so (\<open>reortho_sign_fix\<close>); \<^verbatim>\<open>reortho_batched\<close> does
  not. On the first walker of \<open>ex_batch\<close> the batched mode stores \<open>Q\<close> itself, which
  differs from \<open>Q diag(sign)\<close>, the matrix the per-walker mode stores.
\<close>

theorem reortho_batched_no_sign_fix:
  "map_sum id (hd \<circ> phia \<circ> snd) (reortho_batched True qr_triangular ex_batch) =
     Inr (fst (qr_triangular (hd (phia ex_batch)))) \<and>
   map_sum id (hd \<circ> phia \<circ> snd) (reortho False qr_triangular ex_batch) =
     Inr (dot (fst (qr_triangular (hd (phia ex_batch))))
              (diag_matrix (map sgn (diag (snd (qr_triangular (hd (phia ex_batch)))))))) \<and>
   fst (qr_triangular (hd (phia ex_batch))) \<noteq>
     dot (fst (qr_triangular (hd (phia ex_batch))))
         (diag_matrix (map sgn (diag (snd (qr_triangular (hd (phia ex_batch)))))))"
  by (simp add: reortho_ex_batch reortho_batched_ex_batch)
     (simp add: ex_batch_def qr_triangular_def ncols_def eye_def diag_def diag_matrix_def
        dot_def upt2 sgn_eq)

text \<open>
  C4. For a batch with \<open>ndown = 0\<close>, both modes return, neither changes \<open>phib\<close>, and the
  returned values and the new \<open>detR\<close> are \<open>exp(log_det - detR_shift[i])\<close> with \<open>log_det\<close>
  the sum over the up channel alone. Nor is \<open>phib\<close> read: with any other array \<open>pb\<close> of
  one entry per walker in its place, both modes return the same values.
\<close>

theorem polarised_reortho:
  assumes "batch_ok s" and "ndown s = 0" and "length pb = nwalkers s"
  shows "\<exists>d s1 s2.
           reortho False qr s = Inr (d, s1) \<and> reortho_batched True qr s = Inr (d, s2) \<and>
           phib s1 = phib s \<and> phib s2 = phib s \<and>
           d = map (\<lambda>i. exp (of_real (log_abs_sum (diag (snd (qr (phia s ! i))))) - detR_shift s ! i))
                 [0..<nwalkers s] \<and>
           detR s1 = d \<and> detR s2 = d \<and>
           map_sum id fst (reortho False qr (s\<lparr>phib := pb\<rparr>)) = Inr d \<and>
           map_sum id fst (reortho_batched True qr (s\<lparr>phib := pb\<rparr>)) = Inr d"
proof -
  let ?s = "s\<lparr>phib := pb\<rparr>"
  have ok': "batch_ok ?s"
    using assms by (simp add: batch_ok_def)
  have d: "map (walker_detR qr s) [0..<nwalkers s] =
           map (\<lambda>i. exp (of_real (log_abs_sum (diag (snd (qr (phia s ! i))))) - detR_shift s ! i))
             [0..<nwalkers s]"
    using assms(2) by (simp add: walker_detR_def walker_log_det_def)
  have d': "map (walker_detR qr ?s) [0..<nwalkers ?s] = map (walker_detR qr s) [0..<nwalkers s]"
    using assms(2) by (simp add: walker_detR_def walker_log_det_def)
  have pb: "phib (reortho_upto qr s (nwalkers s)) = phib s"
    using assms(1,2)
    by (intro nth_equalityI) (simp_all add: reortho_upto_sel new_phib_def batch_ok_def)
  have dr: "detR (reortho_upto qr s (nwalkers s)) = map (walker_detR qr s) [0..<nwalkers s]"
    by (simp add: reortho_upto_sel)
  show ?thesis
    using assms(2) pb dr d d'
    by (simp add: reortho_per_walker [OF assms(1)] reortho_batched_closed [OF assms(1)]
        reortho_per_walker [OF ok'] reortho_batched_closed [OF ok'])
qed

text \<open>C4 on the polarised batch, with other matrices put in place of \<open>phib\<close>.\<close>

theorem polarised_reortho_witness:
  "batch_ok ex_polarised \<and> ndown ex_polarised = 0 \<and>
   length [[[5], [7]], [[0], [0::complex]]] = nwalkers ex_polarised \<and>
   (\<exists>d s1 s2.
      reortho False qr_triangular ex_polarised = Inr (d, s1) \<and>
      reortho_batched True qr_triangular ex_polarised = Inr (d, s2) \<and>
      phib s1 = phib ex_polarised \<and> phib s2 = phib ex_polarised \<and>
      d = map (\<lambda>i. exp (of_real (log_abs_sum (diag (snd (qr_triangular (phia ex_polarised ! i))))) -
                       detR_shift ex_polarised ! i))
            [0..<nwalkers ex_polarised] \<and>
      detR s1 = d \<and> detR s2 = d \<and>
      map_sum id fst (reortho False qr_triangular (ex_polarised\<lparr>phib := [[[5], [7]], [[0], [0]]]\<rparr>)) = Inr d \<and>
      map_sum id fst (reortho_batched True qr_triangular (ex_polarised\<lparr>phib := [[[5], [7]], [[0], [0]]]\<rparr>)) = Inr d)"
proof -
  have ok: "batch_ok ex_polarised" and nd: "ndown ex_polarised = 0"
    and len: "length [[[5], [7]], [[0], [0::complex]]] = nwalkers ex_polarised"
    by (simp_all add: batch_ok_def ex_polarised_def)
  show ?thesis
    by (intro conjI) (rule ok nd len polarised_reortho [OF ok nd len, of qr_triangular])+
qed


section \<open>Construction: when it succeeds and what it builds\<close>

lemma base_zeros:
  "np_zeros_all
     [(''Ga'', [n, n_basis, n_basis]), (''Gb'', [n, n_basis, n_basis]),
      (''Ghalfa'', [n, n_up, n_basis]), (''Ghalfb'', [n, n_down, n_basis])] =
   (if n < 0 \<or> n_basis < 0 \<or> n_up < 0 \<or> n_down < 0 then Inl ValueError
    else Inr (base_arrays n_up n_down n_basis n))"
  by (simp add: np_zeros_def base_arrays_def)

lemma UHFWalkers_init_cases:
  "UHFWalkers_init base h p n_up n_down n_basis n =
     (if length (shape (cells h p)) \<noteq> 2 then Inl AssertionError
      else if n < 0 \<or> n_basis < 0 \<or> n_up < 0 \<or> n_down < 0 then Inl ValueError
      else if n = 0 then Inl ZeroDivisionError
      else UHFWalkers_init base h p n_up n_down n_basis n)"
  by (simp add: UHFWalkers_init_def Let_def split_beta base_zeros del: np_zeros_all.simps)

lemma UHFWalkers_init_success:
  "(\<exists>r. UHFWalkers_init base h p n_up n_down n_basis n = Inr r) \<longleftrightarrow>
     length (shape (cells h p)) = 2 \<and> 0 \<le> n_up \<and> 0 \<le> n_down \<and> 0 \<le> n_basis \<and> 0 < n"
  by (auto simp add: UHFWalkers_init_def Let_def split_beta base_zeros simp del: np_zeros_all.simps)

lemma UHFWalkers_init_fields:
  assumes "UHFWalkers_init base h p n_up n_down n_basis n = Inr (w, h')"
  shows "self_class w = UHFWalkers" "self_nup w = n_up" "self_ndown w = n_down"
    "self_nbasis w = n_basis" "self_nwalkers w = n"
    "self_phia w = fresh h" "self_phib w = Suc (fresh h)"
    "self_attrs w = map_of (base_arrays n_up n_down n_basis n)"
    "self_buff_names w = base_buff_names base @ [''phia, phib'']"
    "self_ndets w = None"
    "cells h' = (cells h)
       (fresh h := np_array (map (\<lambda>_. cols_to n_up (cells h p)) [0..<nat n]),
        Suc (fresh h) := np_array (map (\<lambda>_. cols_from n_up (cells h p)) [0..<nat n]))"
    "fresh h' = Suc (Suc (fresh h))"
  using assms
  by (auto simp add: UHFWalkers_init_def Let_def split_beta base_zeros alloc_def
      simp del: np_zeros_all.simps split: if_splits)


section \<open>Blocks of a flat array\<close>

lemma block_concat_replicate:
  assumes "i < n" and "length blk = sz"
  shows "take sz (drop (i * sz) (concat (replicate n blk))) = blk"
  using assms
proof (induction n arbitrary: i)
  case 0
  then show ?case by simp
next
  case (Suc n)
  show ?case
  proof (cases i)
    case 0
    with Suc.prems show ?thesis by simp
  next
    case (Suc k)
    with Suc.prems Suc.IH [of k] show ?thesis by simp
  qed
qed

lemma blocks_concat:
  assumes "\<forall>row \<in> set rows. length row = c"
  shows "blocks (length rows) c (concat rows) = rows"
  using assms
proof (induction rows)
  case Nil
  then show ?case by (simp add: blocks_def)
next
  case (Cons row rows)
  then have len: "length row = c" and IH: "blocks (length rows) c (concat rows) = rows"
    by simp_all
  have "blocks (Suc (length rows)) c (row @ concat rows) =
          take c (row @ concat rows) #
          map (\<lambda>i. take c (drop (Suc i * c) (row @ concat rows))) [0..<length rows]"
    unfolding blocks_def by (simp only: map_upt_Suc) simp
  also have "\<dots> = row # map (\<lambda>i. take c (drop (i * c) (concat rows))) [0..<length rows]"
    using len by simp
  finally show ?case
    using IH by (simp add: blocks_def)
qed

lemma length_blocks: "length (blocks n sz xs) = n"
  by (simp add: blocks_def)

lemma blocks_row_length:
  assumes "length xs = n * sz" and "row \<in> set (blocks n sz xs)"
  shows "length row = sz"
proof -
  from assms(2) obtain i where i: "i < n" and row: "row = take sz (drop (i * sz) xs)"
    by (auto simp: blocks_def)
  from i have "Suc i * sz \<le> n * sz"
    by (intro mult_le_mono1) simp
  with assms(1) row show ?thesis by simp
qed

lemma block_write_other:
  assumes "length ys = sz" and "Suc i * sz \<le> length xs" and "Suc j * sz \<le> length xs"
    and "j \<noteq> i"
  shows "take sz (drop (j * sz) (take (i * sz) xs @ ys @ drop (Suc i * sz) xs)) =
         take sz (drop (j * sz) xs)"
proof (cases "j < i")
  case True
  then have "Suc j * sz \<le> i * sz"
    by (intro mult_le_mono1) simp
  then have le: "j * sz + sz \<le> i * sz" by simp
  from assms(2) have lx: "i * sz \<le> length xs" by simp
  let ?A = "drop (j * sz) (take (i * sz) xs)"
  have lenA: "length ?A = i * sz - j * sz"
    using lx by simp
  from True have le': "j * sz \<le> i * sz"
    by (intro mult_le_mono1) simp
  have "drop (j * sz) (take (i * sz) xs @ ys @ drop (Suc i * sz) xs) =
          ?A @ ys @ drop (Suc i * sz) xs"
    using le' lx by simp
  then have "take sz (drop (j * sz) (take (i * sz) xs @ ys @ drop (Suc i * sz) xs)) = take sz ?A"
    using le lenA by simp
  also have "?A = take (i * sz - j * sz) (drop (j * sz) xs)"
    by (simp add: drop_take)
  also have "take sz (take (i * sz - j * sz) (drop (j * sz) xs)) = take sz (drop (j * sz) xs)"
    using le by (simp add: min_def)
  finally show ?thesis .
next
  case False
  with assms(4) have ij: "i < j" by simp
  then have "Suc i * sz \<le> j * sz"
    by (intro mult_le_mono1) simp
  then have le: "i * sz + sz \<le> j * sz" by simp
  from assms(2) have lx: "i * sz \<le> length xs" by simp
  have l1: "length (take (i * sz) xs) = i * sz"
    using lx by simp
  have "drop (j * sz) (take (i * sz) xs @ ys @ drop (Suc i * sz) xs) =
          drop (j * sz - i * sz - sz) (drop (Suc i * sz) xs)"
    using le ij l1 assms(1) by simp
  also have "\<dots> = drop (j * sz) xs"
    using le ij by simp
  finally show ?thesis by simp
qed

lemma block_write_same:
  assumes "length ys = sz" and "Suc i * sz \<le> length xs"
  shows "take sz (drop (i * sz) (take (i * sz) xs @ ys @ drop (Suc i * sz) xs)) = ys"
  using assms by (simp add: min_def)


section \<open>The arrays the constructor builds\<close>

lemma slice_bound_nonneg: "0 \<le> k \<Longrightarrow> slice_bound k c = min (nat k) c"
  unfolding slice_bound_def by (cases "k \<le> int c") (simp_all add: min_def, linarith+)

lemma length_concat_const:
  assumes "\<forall>row \<in> set rows. length row = c"
  shows "length (concat rows) = length rows * c"
  using assms by (induction rows) simp_all

lemma rows_of_2d:
  assumes "shape a = [r, c]" and "length (elems a) = r * c"
  shows "rows_of a = blocks r c (elems a)" and "length (rows_of a) = r"
    and "\<forall>row \<in> set (rows_of a). length row = c"
  using assms by (auto simp: rows_of_def length_blocks dest: blocks_row_length)

lemma cols_to_2d:
  assumes "shape a = [r, c]" and "length (elems a) = r * c" and "0 \<le> k"
  shows "shape (cols_to k a) = [r, min (nat k) c]"
    and "elems (cols_to k a) = concat (map (take (nat k)) (rows_of a))"
    and "length (elems (cols_to k a)) = r * min (nat k) c"
    and "rows_of (cols_to k a) = map (take (nat k)) (rows_of a)"
proof -
  let ?rows = "map (take (nat k)) (rows_of a)"
  have rl: "\<forall>row \<in> set ?rows. length row = min (nat k) c" and ln: "length ?rows = r"
    using rows_of_2d [OF assms(1,2)] by (auto simp: min_def)
  have tk: "map (take (min (nat k) c)) (rows_of a) = ?rows"
    using rows_of_2d(3) [OF assms(1,2)] by (auto simp: min_def)
  show sh: "shape (cols_to k a) = [r, min (nat k) c]"
    using assms by (simp add: cols_to_def slice_bound_nonneg)
  show el: "elems (cols_to k a) = concat ?rows"
    using assms by (simp add: cols_to_def slice_bound_nonneg tk)
  have "blocks (length ?rows) (min (nat k) c) (concat ?rows) = ?rows"
    using rl by (rule blocks_concat)
  then show "rows_of (cols_to k a) = ?rows"
    using sh el ln by (simp add: rows_of_def)
  show "length (elems (cols_to k a)) = r * min (nat k) c"
    using length_concat_const [OF rl] el ln by simp
qed


lemma cols_from_2d:
  assumes "shape a = [r, c]" and "length (elems a) = r * c" and "0 \<le> k"
  shows "shape (cols_from k a) = [r, c - nat k]"
    and "elems (cols_from k a) = concat (map (drop (nat k)) (rows_of a))"
    and "length (elems (cols_from k a)) = r * (c - nat k)"
    and "rows_of (cols_from k a) = map (drop (nat k)) (rows_of a)"
proof -
  let ?rows = "map (drop (nat k)) (rows_of a)"
  have rl: "\<forall>row \<in> set ?rows. length row = c - nat k" and ln: "length ?rows = r"
    using rows_of_2d [OF assms(1,2)] by auto
  have tk: "map (drop (min (nat k) c)) (rows_of a) = ?rows"
    using rows_of_2d(3) [OF assms(1,2)] by (auto simp: min_def)
  show sh: "shape (cols_from k a) = [r, c - nat k]"
    using assms by (simp add: cols_from_def slice_bound_nonneg)
  show el: "elems (cols_from k a) = concat ?rows"
    using assms by (simp add: cols_from_def slice_bound_nonneg tk)
  have "blocks (length ?rows) (c - nat k) (concat ?rows) = ?rows"
    using rl by (rule blocks_concat)
  then show "rows_of (cols_from k a) = ?rows"
    using sh el ln by (simp add: rows_of_def)
  show "length (elems (cols_from k a)) = r * (c - nat k)"
    using length_concat_const [OF rl] el ln by simp
qed

lemma np_array_replicate:
  assumes "0 < n"
  shows "np_array (map (\<lambda>_. a) [0..<n]) =
           \<lparr>shape = n # shape a, elems = concat (replicate n (elems a))\<rparr>"
proof -
  have "map (\<lambda>_. a) [0..<n] = replicate n a"
    by (simp add: map_replicate_const)
  moreover from assms obtain k where "n = Suc k"
    by (cases n) auto
  ultimately show ?thesis
    by (simp add: np_array_def)
qed

lemma walker_rows_stack:
  assumes "i < n" and "shape a = [r, c]" and "length (elems a) = r * c"
  shows "walker_rows \<lparr>shape = n # shape a, elems = concat (replicate n (elems a))\<rparr> i = rows_of a"
  using assms block_concat_replicate [OF assms(1) assms(3)]
  by (simp add: walker_rows_def rows_of_def mult.commute)

lemma length_stack:
  assumes "length xs = sz"
  shows "length (concat (replicate n xs)) = n * sz"
  using assms by (induction n) simp_all

text \<open>Writing one walker of a three-dimensional array leaves the other walkers as they were.\<close>

lemma set_walker_other_cell: "q \<noteq> p \<Longrightarrow> cells (set_walker p i m h) q = cells h q"
  by (simp add: set_walker_def Let_def)

lemma set_walker_rows:
  assumes "shape (cells h p) = [n, r, c]" and "length (elems (cells h p)) = n * (r * c)"
    and "i < n" and "length m = r" and "\<forall>row \<in> set m. length row = c"
  shows "walker_rows (cells (set_walker p i m h) p) i = m"
    and "j < n \<Longrightarrow> j \<noteq> i \<Longrightarrow>
         walker_rows (cells (set_walker p i m h) p) j = walker_rows (cells h p) j"
proof -
  have lm: "length (concat m) = r * c"
    using length_concat_const [OF assms(5)] assms(4) by simp
  from assms(3) have "Suc i * (r * c) \<le> n * (r * c)"
    by (intro mult_le_mono1) simp
  then have li: "Suc i * (r * c) \<le> length (elems (cells h p))"
    using assms(2) by simp
  have "take (r * c) (drop (i * (r * c))
          (take (i * (r * c)) (elems (cells h p)) @ concat m @
           drop (Suc i * (r * c)) (elems (cells h p)))) = concat m"
    using lm li by (rule block_write_same)
  moreover have "blocks (length m) c (concat m) = m"
    using assms(5) by (rule blocks_concat)
  ultimately show "walker_rows (cells (set_walker p i m h) p) i = m"
    using assms(1,4) by (simp add: walker_rows_def set_walker_def Let_def)
  show "walker_rows (cells (set_walker p i m h) p) j = walker_rows (cells h p) j"
    if j: "j < n" "j \<noteq> i"
  proof -
    from j(1) have "Suc j * (r * c) \<le> n * (r * c)"
      by (intro mult_le_mono1) simp
    then have lj: "Suc j * (r * c) \<le> length (elems (cells h p))"
      using assms(2) by simp
    have "take (r * c) (drop (j * (r * c))
            (take (i * (r * c)) (elems (cells h p)) @ concat m @
             drop (Suc i * (r * c)) (elems (cells h p)))) =
          take (r * c) (drop (j * (r * c)) (elems (cells h p)))"
      using lm li lj j(2) by (rule block_write_other)
    then show ?thesis
      using assms(1) by (simp add: walker_rows_def set_walker_def Let_def)
  qed
qed


section \<open>Claims about construction and dispatch\<close>

lemma UHFWalkers_init_not_assertion:
  "length (shape (cells h p)) = 2 \<Longrightarrow>
     UHFWalkers_init base h p n_up n_down n_basis n \<noteq> Inl AssertionError"
  by (auto simp add: UHFWalkers_init_def Let_def split_beta base_zeros
      simp del: np_zeros_all.simps)

text \<open>
  C5, as stated: construction fails whenever \<^verbatim>\<open>nup\<close> and \<^verbatim>\<open>ndown\<close> do not partition the
  column count of the initial matrix. The constructor makes no such check. With a
  matrix of three columns and \<open>nup = ndown = 1\<close> it returns a batch.
\<close>

theorem construction_unpartitioned_succeeds:
  "shape (cells (store_of ex_wide) 0) = [2, 3] \<and> (1::int) + 1 \<noteq> 3 \<and>
   \<not> isl (UHFWalkers_init ex_base (store_of ex_wide) 0 1 1 2 2)"
proof -
  have "\<exists>r. UHFWalkers_init ex_base (store_of ex_wide) 0 1 1 2 2 = Inr r"
    by (simp only: UHFWalkers_init_success) (simp add: store_of_def ex_wide_def)
  then show ?thesis
    by (auto simp: store_of_def ex_wide_def)
qed

text \<open>
  C5, amended. Construction fails on its assertion exactly when the initial matrix is
  not two-dimensional. Nothing relates \<^verbatim>\<open>nup\<close> and \<^verbatim>\<open>ndown\<close> to the column count: for a
  two-dimensional matrix construction returns a batch exactly when \<^verbatim>\<open>nup\<close>, \<^verbatim>\<open>ndown\<close>
  and \<^verbatim>\<open>nbasis\<close> are not negative and there is at least one walker.
\<close>

theorem construction_outcome:
  "(UHFWalkers_init base h p n_up n_down n_basis n = Inl AssertionError \<longleftrightarrow>
      length (shape (cells h p)) \<noteq> 2) \<and>
   ((\<exists>r. UHFWalkers_init base h p n_up n_down n_basis n = Inr r) \<longleftrightarrow>
      length (shape (cells h p)) = 2 \<and> 0 \<le> n_up \<and> 0 \<le> n_down \<and> 0 \<le> n_basis \<and> 0 < n)"
proof -
  have "UHFWalkers_init base h p n_up n_down n_basis n = Inl AssertionError"
    if "length (shape (cells h p)) \<noteq> 2"
    using that by (subst UHFWalkers_init_cases) simp
  then show ?thesis
    using UHFWalkers_init_not_assertion [of h p base n_up n_down n_basis n]
      UHFWalkers_init_success [of base h p n_up n_down n_basis n]
    by blast
qed

text \<open>The amended C5 on a one-dimensional array, which is refused, and on \<open>ex_wide\<close>.\<close>

theorem construction_outcome_witness:
  "length (shape (cells (store_of ex_vector) 0)) \<noteq> 2 \<and>
   UHFWalkers_init ex_base (store_of ex_vector) 0 1 1 2 2 = Inl AssertionError \<and>
   length (shape (cells (store_of ex_wide) 0)) = 2 \<and>
   (\<exists>r. UHFWalkers_init ex_base (store_of ex_wide) 0 1 1 2 2 = Inr r)"
proof -
  have v: "length (shape (cells (store_of ex_vector) 0)) \<noteq> 2"
    and w: "length (shape (cells (store_of ex_wide) 0)) = 2"
    by (simp_all add: store_of_def ex_vector_def ex_wide_def)
  show ?thesis
    using v w construction_outcome [of ex_base "store_of ex_vector" 0 1 1 2 2]
      construction_outcome [of ex_base "store_of ex_wide" 0 1 1 2 2]
    by simp
qed

text \<open>
  C6. A trial whose class is not a key of \<^verbatim>\<open>UHFWalkersTrial\<close> is never passed over in
  silence: \<^verbatim>\<open>get_initial_walker\<close> raises its exception and the lookup in the table
  raises \<^verbatim>\<open>KeyError\<close>. Either result is an exception and carries no batch, so no
  auxiliary array has been made.
\<close>

theorem unrecognized_variant:
  assumes "UHFWalkersTrial (class_of t) = None"
  shows "get_initial_walker t = Inl (Exception ''Unrecognized trial type in get_initial_walker'') \<and>
         UHFWalkersTrial_getitem (class_of t) = Inl KeyError"
  using assms
  by (cases "class_of t")
     (simp_all add: UHFWalkersTrial_def UHFWalkersTrial_getitem_def get_initial_walker_def
        isinstance_def)

text \<open>C6 on a trial of a class outside the table.\<close>

theorem unrecognized_variant_witness:
  "UHFWalkersTrial (class_of (ex_trial OtherTrial)) = None \<and>
   get_initial_walker (ex_trial OtherTrial) =
     Inl (Exception ''Unrecognized trial type in get_initial_walker'') \<and>
   UHFWalkersTrial_getitem (class_of (ex_trial OtherTrial)) = Inl KeyError"
proof -
  have n: "UHFWalkersTrial (class_of (ex_trial OtherTrial)) = None"
    by (simp add: UHFWalkersTrial_def ex_trial_def)
  show ?thesis
    using n unrecognized_variant [OF n] by simp
qed

text \<open>
  C7. After construction from the matrix at address \<open>p\<close> the batch shares nothing:
  \<open>phia\<close>, \<open>phib\<close> and the initial matrix are three different arrays of the store and
  the initial matrix is left as it was. Every walker \<open>i\<close> of \<open>phia\<close> holds the first
  \<open>nup\<close> columns of that matrix and every walker of \<open>phib\<close> the remaining columns.
  Assigning any matrix \<open>ma\<close> of a walker's shape to walker \<open>i\<close> of \<open>phia\<close> changes that
  walker, no other walker \<open>j\<close>, not \<open>phib\<close> and not the initial matrix; likewise for
  \<open>phib\<close>. The walkers, the matrices assigned and the other walker are quantified
  inside, so a batch of a single walker is covered too.
\<close>

theorem construction_copies:
  assumes init: "UHFWalkers_init base h p n_up n_down n_basis n = Inr (w, h')"
    and p: "p < fresh h"
    and sh: "shape (cells h p) = [r, c]" and len: "length (elems (cells h p)) = r * c"
  shows "cells h' p = cells h p \<and>
         self_phia w \<noteq> p \<and> self_phib w \<noteq> p \<and> self_phia w \<noteq> self_phib w \<and>
         (\<forall>i. i < nat n \<longrightarrow>
            walker_rows (cells h' (self_phia w)) i = map (take (nat n_up)) (rows_of (cells h p)) \<and>
            walker_rows (cells h' (self_phib w)) i = map (drop (nat n_up)) (rows_of (cells h p)) \<and>
            (\<forall>ma. length ma = r \<and> (\<forall>row \<in> set ma. length row = min (nat n_up) c) \<longrightarrow>
               walker_rows (cells (set_walker (self_phia w) i ma h') (self_phia w)) i = ma \<and>
               (\<forall>j. j < nat n \<and> j \<noteq> i \<longrightarrow>
                  walker_rows (cells (set_walker (self_phia w) i ma h') (self_phia w)) j =
                    walker_rows (cells h' (self_phia w)) j) \<and>
               cells (set_walker (self_phia w) i ma h') (self_phib w) = cells h' (self_phib w) \<and>
               cells (set_walker (self_phia w) i ma h') p = cells h' p) \<and>
            (\<forall>mb. length mb = r \<and> (\<forall>row \<in> set mb. length row = c - nat n_up) \<longrightarrow>
               walker_rows (cells (set_walker (self_phib w) i mb h') (self_phib w)) i = mb \<and>
               (\<forall>j. j < nat n \<and> j \<noteq> i \<longrightarrow>
                  walker_rows (cells (set_walker (self_phib w) i mb h') (self_phib w)) j =
                    walker_rows (cells h' (self_phib w)) j) \<and>
               cells (set_walker (self_phib w) i mb h') (self_phia w) = cells h' (self_phia w) \<and>
               cells (set_walker (self_phib w) i mb h') p = cells h' p))"
proof -
  let ?a = "cells h p"
  let ?N = "nat n"
  from init have "\<exists>r. UHFWalkers_init base h p n_up n_down n_basis n = Inr r"
    by blast
  then have "length (shape (cells h p)) = 2 \<and> 0 \<le> n_up \<and> 0 \<le> n_down \<and> 0 \<le> n_basis \<and> 0 < n"
    by (simp only: UHFWalkers_init_success)
  then have k: "0 \<le> n_up" and n: "0 < ?N"
    by simp_all
  note f = UHFWalkers_init_fields [OF init]
  note ct = cols_to_2d [OF sh len k] and cf = cols_from_2d [OF sh len k]
  have pa: "self_phia w = fresh h" and pb: "self_phib w = Suc (fresh h)"
    by (rule f)+
  have ca: "cells h' (self_phia w) =
              \<lparr>shape = ?N # shape (cols_to n_up ?a),
               elems = concat (replicate ?N (elems (cols_to n_up ?a)))\<rparr>"
    and cb: "cells h' (self_phib w) =
              \<lparr>shape = ?N # shape (cols_from n_up ?a),
               elems = concat (replicate ?N (elems (cols_from n_up ?a)))\<rparr>"
    and cp: "cells h' p = cells h p"
    using p by (simp_all add: f np_array_replicate [OF n])
  have ne: "self_phia w \<noteq> p" "self_phib w \<noteq> p" "self_phia w \<noteq> self_phib w"
    using p by (simp_all add: pa pb)
  have sa: "shape (cells h' (self_phia w)) = [?N, r, min (nat n_up) c]"
    and la: "length (elems (cells h' (self_phia w))) = ?N * (r * min (nat n_up) c)"
    by (simp_all add: ca ct(1) length_stack [OF ct(3)])
  have sb: "shape (cells h' (self_phib w)) = [?N, r, c - nat n_up]"
    and lb: "length (elems (cells h' (self_phib w))) = ?N * (r * (c - nat n_up))"
    by (simp_all add: cb cf(1) length_stack [OF cf(3)])
  have walker:
    "walker_rows (cells h' (self_phia w)) i = map (take (nat n_up)) (rows_of ?a) \<and>
     walker_rows (cells h' (self_phib w)) i = map (drop (nat n_up)) (rows_of ?a) \<and>
     (\<forall>ma. length ma = r \<and> (\<forall>row \<in> set ma. length row = min (nat n_up) c) \<longrightarrow>
        walker_rows (cells (set_walker (self_phia w) i ma h') (self_phia w)) i = ma \<and>
        (\<forall>j. j < nat n \<and> j \<noteq> i \<longrightarrow>
           walker_rows (cells (set_walker (self_phia w) i ma h') (self_phia w)) j =
             walker_rows (cells h' (self_phia w)) j) \<and>
        cells (set_walker (self_phia w) i ma h') (self_phib w) = cells h' (self_phib w) \<and>
        cells (set_walker (self_phia w) i ma h') p = cells h' p) \<and>
     (\<forall>mb. length mb = r \<and> (\<forall>row \<in> set mb. length row = c - nat n_up) \<longrightarrow>
        walker_rows (cells (set_walker (self_phib w) i mb h') (self_phib w)) i = mb \<and>
        (\<forall>j. j < nat n \<and> j \<noteq> i \<longrightarrow>
           walker_rows (cells (set_walker (self_phib w) i mb h') (self_phib w)) j =
             walker_rows (cells h' (self_phib w)) j) \<and>
        cells (set_walker (self_phib w) i mb h') (self_phia w) = cells h' (self_phia w) \<and>
        cells (set_walker (self_phib w) i mb h') p = cells h' p)"
    if i: "i < nat n" for i
  proof (intro conjI allI impI)
    show "walker_rows (cells h' (self_phia w)) i = map (take (nat n_up)) (rows_of ?a)"
      unfolding ca using walker_rows_stack [OF i ct(1) ct(3)] ct(4) by simp
    show "walker_rows (cells h' (self_phib w)) i = map (drop (nat n_up)) (rows_of ?a)"
      unfolding cb using walker_rows_stack [OF i cf(1) cf(3)] cf(4) by simp
  next
    fix ma :: "complex list list"
    assume ma: "length ma = r \<and> (\<forall>row \<in> set ma. length row = min (nat n_up) c)"
    note wa = set_walker_rows [OF sa la i conjunct1 [OF ma] conjunct2 [OF ma]]
    show "walker_rows (cells (set_walker (self_phia w) i ma h') (self_phia w)) i = ma"
      by (rule wa(1))
    show "cells (set_walker (self_phia w) i ma h') (self_phib w) = cells h' (self_phib w)"
      using ne by (simp add: set_walker_other_cell)
    show "cells (set_walker (self_phia w) i ma h') p = cells h' p"
      using ne by (simp add: set_walker_other_cell)
    fix j
    assume "j < nat n \<and> j \<noteq> i"
    then show "walker_rows (cells (set_walker (self_phia w) i ma h') (self_phia w)) j =
               walker_rows (cells h' (self_phia w)) j"
      by (intro wa(2)) simp_all
  next
    fix mb :: "complex list list"
    assume mb: "length mb = r \<and> (\<forall>row \<in> set mb. length row = c - nat n_up)"
    note wb = set_walker_rows [OF sb lb i conjunct1 [OF mb] conjunct2 [OF mb]]
    show "walker_rows (cells (set_walker (self_phib w) i mb h') (self_phib w)) i = mb"
      by (rule wb(1))
    show "cells (set_walker (self_phib w) i mb h') (self_phia w) = cells h' (self_phia w)"
      using ne by (simp add: set_walker_other_cell)
    show "cells (set_walker (self_phib w) i mb h') p = cells h' p"
      using ne by (simp add: set_walker_other_cell)
    fix j
    assume "j < nat n \<and> j \<noteq> i"
    then show "walker_rows (cells (set_walker (self_phib w) i mb h') (self_phib w)) j =
               walker_rows (cells h' (self_phib w)) j"
      by (intro wb(2)) simp_all
  qed
  show ?thesis
    using cp ne walker by blast
qed

text \<open>
  C7 on the matrix \<open>[[1, 2], [3, 4]]\<close> with two walkers: every hypothesis holds, and
  walker \<open>0\<close> is overwritten while walker \<open>1\<close> is read.
\<close>

theorem construction_copies_witness:
  "\<exists>w h'.
     UHFWalkers_init ex_base (store_of ex_matrix) 0 1 1 2 2 = Inr (w, h') \<and>
     0 < fresh (store_of ex_matrix) \<and>
     shape (cells (store_of ex_matrix) 0) = [2, 2] \<and>
     length (elems (cells (store_of ex_matrix) 0)) = 2 * 2 \<and>
     (0::nat) < nat 2 \<and> (1::nat) < nat 2 \<and> (1::nat) \<noteq> 0 \<and>
     length [[9], [8::complex]] = 2 \<and>
     (\<forall>row \<in> set [[9], [8::complex]]. length row = min (nat 1) 2) \<and>
     length [[7], [6::complex]] = 2 \<and>
     (\<forall>row \<in> set [[7], [6::complex]]. length row = 2 - nat 1) \<and>
     walker_rows (cells h' (self_phia w)) 0 = [[1], [3]] \<and>
     walker_rows (cells h' (self_phib w)) 0 = [[2], [4]] \<and>
     cells h' 0 = ex_matrix \<and>
     self_phia w \<noteq> 0 \<and> self_phib w \<noteq> 0 \<and> self_phia w \<noteq> self_phib w \<and>
     walker_rows (cells (set_walker (self_phia w) 0 [[9], [8]] h') (self_phia w)) 0 = [[9], [8]] \<and>
     walker_rows (cells (set_walker (self_phia w) 0 [[9], [8]] h') (self_phia w)) 1 =
       walker_rows (cells h' (self_phia w)) 1 \<and>
     cells (set_walker (self_phia w) 0 [[9], [8]] h') (self_phib w) = cells h' (self_phib w) \<and>
     cells (set_walker (self_phia w) 0 [[9], [8]] h') 0 = cells h' 0 \<and>
     walker_rows (cells (set_walker (self_phib w) 0 [[7], [6]] h') (self_phib w)) 0 = [[7], [6]] \<and>
     walker_rows (cells (set_walker (self_phib w) 0 [[7], [6]] h') (self_phib w)) 1 =
       walker_rows (cells h' (self_phib w)) 1 \<and>
     cells (set_walker (self_phib w) 0 [[7], [6]] h') (self_phia w) = cells h' (self_phia w) \<and>
     cells (set_walker (self_phib w) 0 [[7], [6]] h') 0 = cells h' 0"
proof -
  have "\<exists>r. UHFWalkers_init ex_base (store_of ex_matrix) 0 1 1 2 2 = Inr r"
    by (simp only: UHFWalkers_init_success) (simp add: store_of_def ex_matrix_def)
  then obtain w h' where init: "UHFWalkers_init ex_base (store_of ex_matrix) 0 1 1 2 2 = Inr (w, h')"
    by auto
  have p: "0 < fresh (store_of ex_matrix)"
    and sh: "shape (cells (store_of ex_matrix) 0) = [2, 2]"
    and len: "length (elems (cells (store_of ex_matrix) 0)) = 2 * 2"
    by (simp_all add: store_of_def ex_matrix_def)
  have i: "(0::nat) < nat 2" and j: "(1::nat) < nat 2 \<and> (1::nat) \<noteq> 0"
    by simp_all
  have ma: "length [[9], [8::complex]] = 2 \<and>
            (\<forall>row \<in> set [[9], [8::complex]]. length row = min (nat 1) 2)"
    and mb: "length [[7], [6::complex]] = 2 \<and>
             (\<forall>row \<in> set [[7], [6::complex]]. length row = 2 - nat 1)"
    by simp_all
  have rows: "rows_of ex_matrix = [[1, 2], [3, 4]]"
    and cell: "cells (store_of ex_matrix) 0 = ex_matrix"
    by (simp_all add: store_of_def ex_matrix_def rows_of_def blocks_def upt_rec numeral_2_eq_2)
  note c = construction_copies [OF init p sh len]
  from c have top: "cells h' 0 = cells (store_of ex_matrix) 0"
    "self_phia w \<noteq> 0" "self_phib w \<noteq> 0" "self_phia w \<noteq> self_phib w"
    by blast+
  from c i have wi:
    "walker_rows (cells h' (self_phia w)) 0 =
       map (take (nat 1)) (rows_of (cells (store_of ex_matrix) 0))"
    "walker_rows (cells h' (self_phib w)) 0 =
       map (drop (nat 1)) (rows_of (cells (store_of ex_matrix) 0))"
    by blast+
  from c i ma have wa:
    "walker_rows (cells (set_walker (self_phia w) 0 [[9], [8]] h') (self_phia w)) 0 = [[9], [8]]"
    "cells (set_walker (self_phia w) 0 [[9], [8]] h') (self_phib w) = cells h' (self_phib w)"
    "cells (set_walker (self_phia w) 0 [[9], [8]] h') 0 = cells h' 0"
    by blast+
  from c i ma j have wja:
    "walker_rows (cells (set_walker (self_phia w) 0 [[9], [8]] h') (self_phia w)) 1 =
       walker_rows (cells h' (self_phia w)) 1"
    by blast
  from c i mb have wb:
    "walker_rows (cells (set_walker (self_phib w) 0 [[7], [6]] h') (self_phib w)) 0 = [[7], [6]]"
    "cells (set_walker (self_phib w) 0 [[7], [6]] h') (self_phia w) = cells h' (self_phia w)"
    "cells (set_walker (self_phib w) 0 [[7], [6]] h') 0 = cells h' 0"
    by blast+
  from c i mb j have wjb:
    "walker_rows (cells (set_walker (self_phib w) 0 [[7], [6]] h') (self_phib w)) 1 =
       walker_rows (cells h' (self_phib w)) 1"
    by blast
  show ?thesis
    using init p sh len i j ma mb top wi wa wja wb wjb
    by (intro exI [of _ w] exI [of _ h']) (simp add: rows cell)
qed

text \<open>
  The name registered by the constructor is the single string \<open>''phia, phib''\<close>. Unless
  the batch has a field of that very name it adds nothing to the size, and the
  registered names that count are those of \<^verbatim>\<open>BaseWalkers\<close> alone.
\<close>

lemma buff_size_ignores_unknown_name:
  assumes "name \<notin> fst ` set sizes"
  shows "set_buff_size_single_walker (names @ [name]) sizes =
         set_buff_size_single_walker names sizes"
proof -
  have "filter (\<lambda>(x, sz). x \<in> set (names @ [name])) sizes =
        filter (\<lambda>(x, sz). x \<in> set names) sizes"
    using assms by (intro filter_cong) (auto simp: image_iff)
  then show ?thesis
    by (simp add: set_buff_size_single_walker_def)
qed

lemma buff_names_registered:
  assumes "UHFWalkers_init base h p n_up n_down n_basis n = Inr (w, h')"
  shows "self_buff_names w = base_buff_names base @ [''phia, phib'']"
    and "''phia'' \<in> set (self_buff_names w) \<longleftrightarrow> ''phia'' \<in> set (base_buff_names base)"
    and "''phib'' \<in> set (self_buff_names w) \<longleftrightarrow> ''phib'' \<in> set (base_buff_names base)"
  by (simp_all add: UHFWalkers_init_fields [OF assms])

text \<open>
  C8. The claim: the buffer size is the sum of the sizes of the per-walker fields,
  \<open>phia\<close> and \<open>phib\<close> among them, divided by the number of walkers. The code registers
  the one name \<open>''phia, phib''\<close>, which is no field of the batch, so the orbitals are
  not counted. For two walkers over \<open>ex_matrix\<close>, with \<^verbatim>\<open>weight\<close> and \<^verbatim>\<open>ovlp\<close> registered
  by the base class, the buffer has \<open>2\<close> entries per walker; \<open>phia\<close> and \<open>phib\<close> have
  \<open>4\<close> entries each, and counting them gives \<open>6\<close>.
\<close>

theorem buff_size_omits_orbitals:
  "map_sum id (self_buff_names \<circ> fst) (UHFWalkers_init ex_base (store_of ex_matrix) 0 1 1 2 2) =
     Inr [''weight'', ''ovlp'', ''phia, phib''] \<and>
   map_sum id (self_buff_size \<circ> fst) (UHFWalkers_init ex_base (store_of ex_matrix) 0 1 1 2 2) =
     Inr 2 \<and>
   map_sum id (asize \<circ> self_walker_buffer \<circ> fst)
     (UHFWalkers_init ex_base (store_of ex_matrix) 0 1 1 2 2) = Inr 2 \<and>
   map_sum id (\<lambda>(w, h'). (asize (cells h' (self_phia w)), asize (cells h' (self_phib w))))
     (UHFWalkers_init ex_base (store_of ex_matrix) 0 1 1 2 2) = Inr (4, 4) \<and>
   py_round_div
     (set_buff_size_single_walker [''weight'', ''ovlp'', ''phia'', ''phib'']
        [(''weight'', 2), (''ovlp'', 2), (''phia'', 4), (''phib'', 4)]) 2 = 6"
  by (simp add: UHFWalkers_init_def store_of_def ex_matrix_def Let_def alloc_def np_array_def
      cols_to_def cols_from_def rows_of_def blocks_def slice_bound_def upt2 np_zeros_def
      zeros_def ex_base_def set_buff_size_single_walker_def py_round_div_def asize_def)

lemma naive_zeros:
  "np_zeros_all
     [(''det_weights'', [n, ndets]), (''det_ovlpas'', [n, ndets]), (''det_ovlpbs'', [n, ndets]),
      (''Gia'', [n, ndets, n_basis, n_basis]), (''Gib'', [n, ndets, n_basis, n_basis]),
      (''Gihalfa'', [n, ndets, n_up, n_basis]), (''Gihalfb'', [n, ndets, n_down, n_basis])] =
   (if n < 0 \<or> ndets < 0 \<or> n_basis < 0 \<or> n_up < 0 \<or> n_down < 0 then Inl ValueError
    else Inr [(''det_weights'', zeros [nat n, nat ndets]),
              (''det_ovlpas'', zeros [nat n, nat ndets]),
              (''det_ovlpbs'', zeros [nat n, nat ndets]),
              (''Gia'', zeros [nat n, nat ndets, nat n_basis, nat n_basis]),
              (''Gib'', zeros [nat n, nat ndets, nat n_basis, nat n_basis]),
              (''Gihalfa'', zeros [nat n, nat ndets, nat n_up, nat n_basis]),
              (''Gihalfb'', zeros [nat n, nat ndets, nat n_down, nat n_basis])])"
  by (simp add: np_zeros_def)

lemma Naive_init_fields:
  assumes "UHFWalkersParticleHoleNaive_init base h p n_up n_down n_basis n ndets = Inr (wn, hn)"
  shows "self_class wn = UHFWalkersParticleHoleNaive" and "0 \<le> ndets" and "0 < n"
    and "self_attrs wn ''det_weights'' = Some (zeros [nat n, nat ndets])"
    and "self_ndets wn = Some ndets"
proof -
  from assms obtain w h' where
    init: "UHFWalkers_init base h p n_up n_down n_basis n = Inr (w, h')"
    by (auto simp: UHFWalkersParticleHoleNaive_init_def split: sum.splits)
  note f = UHFWalkers_init_fields [OF init]
  from init have "\<exists>r. UHFWalkers_init base h p n_up n_down n_basis n = Inr r"
    by blast
  then have "length (shape (cells h p)) = 2 \<and> 0 \<le> n_up \<and> 0 \<le> n_down \<and> 0 \<le> n_basis \<and> 0 < n"
    by (simp only: UHFWalkers_init_success)
  then show "0 < n" by simp
  from assms init
  have r: "0 \<le> ndets \<and>
           wn = w\<lparr>self_class := UHFWalkersParticleHoleNaive, self_ndets := Some ndets,
                  self_attrs := self_attrs w ++ map_of
                    [(''det_weights'', zeros [nat n, nat ndets]),
                     (''det_ovlpas'', zeros [nat n, nat ndets]),
                     (''det_ovlpbs'', zeros [nat n, nat ndets]),
                     (''Gia'', zeros [nat n, nat ndets, nat n_basis, nat n_basis]),
                     (''Gib'', zeros [nat n, nat ndets, nat n_basis, nat n_basis]),
                     (''Gihalfa'', zeros [nat n, nat ndets, nat n_up, nat n_basis]),
                     (''Gihalfb'', zeros [nat n, nat ndets, nat n_down, nat n_basis])]\<rparr>"
    by (auto simp add: UHFWalkersParticleHoleNaive_init_def f naive_zeros
        simp del: np_zeros_all.simps split: if_splits)
  then show "0 \<le> ndets" by simp
  from r show "self_class wn = UHFWalkersParticleHoleNaive"
    and "self_attrs wn ''det_weights'' = Some (zeros [nat n, nat ndets])"
    and "self_ndets wn = Some ndets"
    by simp_all
qed

text \<open>
  C9. For a batch of class \<^verbatim>\<open>UHFWalkers\<close>, the class of a single-determinant trial,
  \<^verbatim>\<open>build\<close> returns the batch unchanged, and it has no \<^verbatim>\<open>det_weights\<close>. For a batch of
  class \<^verbatim>\<open>UHFWalkersParticleHoleNaive\<close>, \<^verbatim>\<open>build\<close> changes nothing either, and the batch
  has \<^verbatim>\<open>det_weights\<close> of shape \<open>(nwalkers, ndets)\<close> with every entry zero.
\<close>

theorem build_variants:
  assumes "UHFWalkers_init base h p n_up n_down n_basis n = Inr (w, h1)"
    and "UHFWalkersParticleHoleNaive_init base h p n_up n_down n_basis n ndets = Inr (wn, hn)"
  shows "UHFWalkersTrial SingleDet = Some (self_class w) \<and>
         build t w = Inr w \<and>
         self_attrs w ''det_weights'' = None \<and>
         UHFWalkersTrial ParticleHoleNaive = Some (self_class wn) \<and>
         build t wn = Inr wn \<and>
         0 < n \<and> 0 \<le> ndets \<and>
         (\<exists>a. self_attrs wn ''det_weights'' = Some a \<and>
              shape a = [nat n, nat ndets] \<and>
              length (elems a) = nat n * nat ndets \<and>
              set (elems a) \<subseteq> {0})"
  using UHFWalkers_init_fields(1,8) [OF assms(1)] Naive_init_fields [OF assms(2)]
  by (auto simp add: UHFWalkersTrial_def build_def base_arrays_def zeros_def)

text \<open>C9 on two walkers and three determinants.\<close>

theorem build_variants_witness:
  "\<exists>w h1 wn hn.
     UHFWalkers_init ex_base (store_of ex_matrix) 0 1 1 2 2 = Inr (w, h1) \<and>
     UHFWalkersParticleHoleNaive_init ex_base (store_of ex_matrix) 0 1 1 2 2 3 = Inr (wn, hn) \<and>
     build (ex_trial SingleDet) w = Inr w \<and>
     self_attrs w ''det_weights'' = None \<and>
     build (ex_trial ParticleHoleNaive) wn = Inr wn \<and>
     self_attrs wn ''det_weights'' =
       Some \<lparr>shape = [2, 3], elems = [0, 0, 0, 0, 0, 0]\<rparr>"
proof -
  have "\<exists>r. UHFWalkers_init ex_base (store_of ex_matrix) 0 1 1 2 2 = Inr r"
    by (simp only: UHFWalkers_init_success) (simp add: store_of_def ex_matrix_def)
  then obtain w h1 where
    init: "UHFWalkers_init ex_base (store_of ex_matrix) 0 1 1 2 2 = Inr (w, h1)"
    by auto
  then obtain wn hn where
    naive: "UHFWalkersParticleHoleNaive_init ex_base (store_of ex_matrix) 0 1 1 2 2 3 = Inr (wn, hn)"
    by (auto simp add: UHFWalkersParticleHoleNaive_init_def UHFWalkers_init_fields [OF init]
        naive_zeros simp del: np_zeros_all.simps)
  have "self_attrs wn ''det_weights'' = Some (zeros [nat 2, nat 3])"
    by (rule Naive_init_fields [OF naive])
  moreover have "zeros [nat 2, nat 3] = \<lparr>shape = [2, 3], elems = [0, 0, 0, 0, 0, 0]\<rparr>"
    by (simp add: zeros_def numeral_eq_Suc)
  ultimately show ?thesis
    using init naive build_variants [OF init naive]
    by (intro exI [of _ w] exI [of _ h1] exI [of _ wn] exI [of _ hn]) simp
qed

text \<open>
  C10. The table maps the class \<^verbatim>\<open>ParticleHoleNaive\<close> to
  \<^verbatim>\<open>UHFWalkersParticleHoleNaive\<close>, yet \<^verbatim>\<open>get_initial_walker\<close> raises for every trial of
  that class: whenever it returns, the trial is a \<^verbatim>\<open>SingleDet\<close>, a
  \<^verbatim>\<open>ParticleHoleWicks\<close> or a \<^verbatim>\<open>ParticleHoleWicksNonChunked\<close>.
\<close>

theorem naive_trial_not_extractable:
  assumes "class_of t = ParticleHoleNaive" and "get_initial_walker u = Inr r"
  shows "UHFWalkersTrial_getitem (class_of t) = Inr UHFWalkersParticleHoleNaive \<and>
         get_initial_walker t = Inl (Exception ''Unrecognized trial type in get_initial_walker'') \<and>
         class_of u \<in> {SingleDet, ParticleHoleWicks, ParticleHoleWicksNonChunked}"
  using assms
  by (cases "class_of u")
     (simp_all add: UHFWalkersTrial_def UHFWalkersTrial_getitem_def get_initial_walker_def
        isinstance_def)

text \<open>C10 on a trial of class \<^verbatim>\<open>ParticleHoleNaive\<close> and one of class \<^verbatim>\<open>SingleDet\<close>.\<close>

theorem naive_trial_not_extractable_witness:
  "class_of (ex_trial ParticleHoleNaive) = ParticleHoleNaive \<and>
   get_initial_walker (ex_trial SingleDet) = Inr (1, ex_matrix) \<and>
   UHFWalkersTrial_getitem (class_of (ex_trial ParticleHoleNaive)) = Inr UHFWalkersParticleHoleNaive \<and>
   get_initial_walker (ex_trial ParticleHoleNaive) =
     Inl (Exception ''Unrecognized trial type in get_initial_walker'') \<and>
   class_of (ex_trial SingleDet) \<in> {SingleDet, ParticleHoleWicks, ParticleHoleWicksNonChunked}"
proof -
  have c: "class_of (ex_trial ParticleHoleNaive) = ParticleHoleNaive"
    and g: "get_initial_walker (ex_trial SingleDet) = Inr (1, ex_matrix)"
    by (simp_all add: ex_trial_def get_initial_walker_def isinstance_def)
  show ?thesis
    using c g naive_trial_not_extractable [OF c g] by simp
qed

end
